theory Spec2Isabelle
  imports Complex_Main "HOL-Library.Word"
begin

unbundle bit_operations_syntax

section \<open>Element-wise activation functors (relu_op_functor.h)\<close>

text \<open>
  The functors are templates over the scalar type \<open>T\<close>. Here \<open>T\<close> is any type with the
  operations a functor uses (\<open>0\<close>, \<open><\<close>, \<open>*\<close>, numerals); a tensor is the list of its
  elements, and an Eigen coefficient-wise expression is \<open>map\<close> over that list. The integer
  instances of \<open>T\<close> are covered by the linearly ordered rings; the floating-point instances
  (\<open>Eigen::half\<close>, \<open>float\<close>, \<open>double\<close>) by the type \<open>fp_value\<close> below.
\<close>

subsection \<open>The values of a floating-point scalar type\<close>

text \<open>
  The values of an IEEE 754 binary format: the finite numbers, which are rationals, with
  the zero of negative sign apart (\<open>Finite 0\<close> is the zero of positive sign), the two
  infinities and NaN (sign and payload of a NaN are not kept). The sum and the product of
  finite numbers are the exact ones: the format's rounding and its overflow to an infinity
  are not modelled. The functors of the theorems below multiply only by 0 and by 1 and
  compare with 0 and with 6, which the formats do exactly.
\<close>

datatype fp_value = Finite rat | NegZero | PosInf | NegInf | NaN

fun sign_bit :: "fp_value \<Rightarrow> bool" where
  "sign_bit (Finite a) = (a < 0)"
| "sign_bit NegZero = True"
| "sign_bit PosInf = False"
| "sign_bit NegInf = True"
| "sign_bit NaN = False"

fun is_zero :: "fp_value \<Rightarrow> bool" where
  "is_zero (Finite a) = (a = 0)"
| "is_zero NegZero = True"
| "is_zero PosInf = False"
| "is_zero NegInf = False"
| "is_zero NaN = False"

fun is_inf :: "fp_value \<Rightarrow> bool" where
  "is_inf PosInf = True"
| "is_inf NegInf = True"
| "is_inf (Finite a) = False"
| "is_inf NegZero = False"
| "is_inf NaN = False"

fun is_finite :: "fp_value \<Rightarrow> bool" where
  "is_finite (Finite a) = True"
| "is_finite NegZero = True"
| "is_finite PosInf = False"
| "is_finite NegInf = False"
| "is_finite NaN = False"

definition signed_zero :: "bool \<Rightarrow> fp_value" where
  "signed_zero s = (if s then NegZero else Finite 0)"

definition signed_inf :: "bool \<Rightarrow> fp_value" where
  "signed_inf s = (if s then NegInf else PosInf)"

text \<open>
  The place of a value in the order: the infinities below and above the finite numbers,
  the two zeros at the same place. A NaN has no place; the comparisons exclude it first.
\<close>

fun order_key :: "fp_value \<Rightarrow> int \<times> rat" where
  "order_key (Finite a) = (0, a)"
| "order_key NegZero = (0, 0)"
| "order_key PosInf = (1, 0)"
| "order_key NegInf = (-1, 0)"
| "order_key NaN = (0, 0)"

text \<open>
  The arithmetic and the comparisons of the format. A comparison with a NaN is false; a
  product with a NaN is a NaN, an infinity times a zero is a NaN, and every other product
  has the exclusive or of the signs of its factors.
\<close>

instantiation fp_value :: "{zero, one, numeral, ord, times}"
begin

definition zero_fp_value :: fp_value where "0 = Finite 0"

definition one_fp_value :: fp_value where "1 = Finite 1"

fun plus_fp_value :: "fp_value \<Rightarrow> fp_value \<Rightarrow> fp_value" where
  "NaN + y = NaN"
| "x + NaN = NaN"
| "PosInf + NegInf = NaN"
| "NegInf + PosInf = NaN"
| "PosInf + y = PosInf"
| "x + PosInf = PosInf"
| "NegInf + y = NegInf"
| "x + NegInf = NegInf"
| "NegZero + y = y"
| "x + NegZero = x"
| "Finite a + Finite b = Finite (a + b)"

definition times_fp_value :: "fp_value \<Rightarrow> fp_value \<Rightarrow> fp_value" where
  "x * y =
     (if x = NaN \<or> y = NaN then NaN
      else if is_inf x \<or> is_inf y
        then (if is_zero x \<or> is_zero y then NaN else signed_inf (sign_bit x \<noteq> sign_bit y))
      else if is_zero x \<or> is_zero y then signed_zero (sign_bit x \<noteq> sign_bit y)
      else (case (x, y) of (Finite a, Finite b) \<Rightarrow> Finite (a * b) | _ \<Rightarrow> NaN))"

definition less_fp_value :: "fp_value \<Rightarrow> fp_value \<Rightarrow> bool" where
  "x < y = (x \<noteq> NaN \<and> y \<noteq> NaN \<and>
     (fst (order_key x) < fst (order_key y) \<or>
      fst (order_key x) = fst (order_key y) \<and> snd (order_key x) < snd (order_key y)))"

definition less_eq_fp_value :: "fp_value \<Rightarrow> fp_value \<Rightarrow> bool" where
  "x \<le> y = (x \<noteq> NaN \<and> y \<noteq> NaN \<and>
     (fst (order_key x) < fst (order_key y) \<or>
      fst (order_key x) = fst (order_key y) \<and> snd (order_key x) \<le> snd (order_key y)))"

instance
proof
  fix a b c :: fp_value
  show "a + b + c = a + (b + c)"
    by (cases a; cases b; cases c) simp_all
qed

end

subsection \<open>The functors\<close>

text \<open>
  \<open>Relu6\<close>: \<open>features.cwiseMax<Eigen::PropagateNaN>(0).cwiseMin<Eigen::PropagateNaN>(6)\<close>.
  Eigen is not among the sources. With \<open>PropagateNaN\<close> the result is a NaN operand when
  there is one, and otherwise the larger (the smaller) operand, the first one when neither
  is. A NaN is the value that does not compare with itself; an integer type has none.
\<close>

definition isnan :: "'a::ord \<Rightarrow> bool" where
  "isnan x = (\<not> x \<le> x)"

definition cwiseMax :: "'a::ord \<Rightarrow> 'a \<Rightarrow> 'a" where
  "cwiseMax a b = (if isnan a then a else if isnan b then b else if a < b then b else a)"

definition cwiseMin :: "'a::ord \<Rightarrow> 'a \<Rightarrow> 'a" where
  "cwiseMin a b = (if isnan a then a else if isnan b then b else if b < a then b else a)"

definition Relu6 :: "'a::{zero,numeral,ord} list \<Rightarrow> 'a list" where
  "Relu6 features = map (\<lambda>x. cwiseMin (cwiseMax x 0) 6) features"

text \<open>
  \<open>Relu6Grad\<close>: \<open>gradients * ((features > 0) * (features < 6)).cast<T>()\<close>. The product of
  the two boolean tensors is their conjunction, and the cast turns it into one or zero.
\<close>

definition Relu6Grad :: "'a::{zero,one,numeral,ord,times} list \<Rightarrow> 'a list \<Rightarrow> 'a list" where
  "Relu6Grad gradients features =
     map2 (\<lambda>g x. g * (if (0 < x) \<and> (x < 6) then 1 else 0)) gradients features"


section \<open>Packed int8 ReLU on one 32-bit word (relu_op_gpu.cu.cc)\<close>

text \<open>
  The body of \<open>Relu_int8x4_kernel\<close> without \<open>GOOGLE_CUDA\<close>: the sign bits of the four
  lanes are collected, fanned out over each lane, and used as a mask.
\<close>

definition Relu_int8x4_word :: "32 word \<Rightarrow> 32 word" where
  "Relu_int8x4_word w =
     (let signs = (NOT w) AND 0x80808080;
          signs = drop_bit 7 signs;
          signs = signs OR push_bit 1 signs;
          signs = signs OR push_bit 2 signs;
          signs = signs OR push_bit 4 signs;
          signs = signs AND 0x7f7f7f7f
      in w AND signs)"

text \<open>
  The reference the specification compares with: the word is cut into four signed 8-bit
  lanes, each lane \<open>b\<close> is replaced by \<open>max(b, 0)\<close>, and the lanes are put back.
\<close>

definition lane :: "nat \<Rightarrow> 32 word \<Rightarrow> 8 word" where
  "lane k w = ucast (drop_bit (8 * k) w)"

definition max_s8 :: "8 word \<Rightarrow> 8 word \<Rightarrow> 8 word" where
  "max_s8 a b = (if sint a < sint b then b else a)"

definition pack4 :: "8 word \<Rightarrow> 8 word \<Rightarrow> 8 word \<Rightarrow> 8 word \<Rightarrow> 32 word" where
  "pack4 b0 b1 b2 b3 =
     ucast b0 OR push_bit 8 (ucast b1) OR push_bit 16 (ucast b2) OR push_bit 24 (ucast b3)"

definition relu_int8x4_ref :: "32 word \<Rightarrow> 32 word" where
  "relu_int8x4_ref w =
     pack4 (max_s8 (lane 0 w) 0) (max_s8 (lane 1 w) 0) (max_s8 (lane 2 w) 0) (max_s8 (lane 3 w) 0)"

section \<open>The per-element random word of Quant8Fwd (relu_op_gpu.cu.cc)\<close>

text \<open>
  An element of the input buffer as the kernels read it through \<open>IT\<close>: a 16-bit pattern
  when \<open>sizeof(T) = 2\<close>, a 32-bit pattern otherwise.
\<close>

datatype elem_bits = Half16 "16 word" | Float32 "32 word"

fun to_uint32 :: "elem_bits \<Rightarrow> 32 word" where
  "to_uint32 (Half16 h) = ucast h"
| "to_uint32 (Float32 w) = w"

fun sizeof_bits :: "elem_bits \<Rightarrow> nat" where
  "sizeof_bits (Half16 h) = 2"
| "sizeof_bits (Float32 w) = 4"

text \<open>
  The stochastic branch of \<open>Quant8FwdKernel<T,we,wm>\<close>, up to the value of \<open>rng\<close>. The
  thread index \<open>i\<close> is an \<open>int\<close> of the source; the product \<open>i*229791\<close> enters the XOR as
  an unsigned 32-bit value, so only its residue modulo \<open>2^32\<close> counts.
\<close>

definition Quant8FwdKernel_rng :: "elem_bits \<Rightarrow> int \<Rightarrow> 32 word \<Rightarrow> 32 word" where
  "Quant8FwdKernel_rng x i seed =
     (let drop_bits = to_uint32 x AND 0xFFFF;
          drop_bits = (if sizeof_bits x = 4 then drop_bits XOR drop_bit 16 (to_uint32 x)
                       else drop_bits);
          drop_bits = push_bit 11 (drop_bits AND 31) OR drop_bit 5 drop_bits;
          drop_bits = drop_bits * 0x7000149
      in drop_bits XOR 0x13371337 XOR word_of_int (i * 229791) XOR seed)"

text \<open>The same branch of \<open>Quant8FwdKernel_52\<close>.\<close>

definition Quant8FwdKernel_52_rng :: "elem_bits \<Rightarrow> int \<Rightarrow> 32 word \<Rightarrow> 32 word" where
  "Quant8FwdKernel_52_rng x i seed =
     (let drop_bits = to_uint32 x AND 0xFFFF;
          drop_bits = (if sizeof_bits x = 4 then drop_bits XOR drop_bit 16 (to_uint32 x)
                       else drop_bits);
          drop_bits = push_bit 11 (drop_bits AND 31) OR drop_bit 5 drop_bits;
          drop_bits = drop_bits * 0x7000149
      in drop_bits XOR 0x13371337 XOR word_of_int (i * 229791) XOR seed)"

text \<open>
  The same branch of \<open>Quant8FwdKernel_43\<close>, which has the statement \<open>drop_bits += i\<close>
  between the rotation and the multiplication.
\<close>

definition Quant8FwdKernel_43_rng :: "elem_bits \<Rightarrow> int \<Rightarrow> 32 word \<Rightarrow> 32 word" where
  "Quant8FwdKernel_43_rng x i seed =
     (let drop_bits = to_uint32 x AND 0xFFFF;
          drop_bits = (if sizeof_bits x = 4 then drop_bits XOR drop_bit 16 (to_uint32 x)
                       else drop_bits);
          drop_bits = push_bit 11 (drop_bits AND 31) OR drop_bit 5 drop_bits;
          drop_bits = drop_bits + word_of_int i;
          drop_bits = drop_bits * 0x7000149
      in drop_bits XOR 0x13371337 XOR word_of_int (i * 229791) XOR seed)"

text \<open>
  The derivation as the specification words it: \<open>x16\<close> is the lower 16 bits of \<open>x\<close>,
  \<open>drop\<close> starts as \<open>x16\<close>, is XORed with \<open>x >> 16\<close> for a 4-byte \<open>T\<close>, rotated, multiplied
  by \<open>0x7000149\<close> with 32-bit wrap, and \<open>rng = drop XOR 0x13371337 XOR (i * 229791) XOR seed\<close>.
\<close>

definition spec_drop :: "elem_bits \<Rightarrow> 32 word" where
  "spec_drop x =
     (case x of
        Half16 h \<Rightarrow> ucast h
      | Float32 w \<Rightarrow> take_bit 16 w XOR drop_bit 16 w)"

definition spec_rotate :: "32 word \<Rightarrow> 32 word" where
  "spec_rotate d = push_bit 11 (d AND 31) OR drop_bit 5 d"

definition spec_rng :: "elem_bits \<Rightarrow> int \<Rightarrow> 32 word \<Rightarrow> 32 word" where
  "spec_rng x i seed =
     (spec_rotate (spec_drop x) * 0x7000149) XOR 0x13371337 XOR word_of_int (i * 229791) XOR seed"

section \<open>Device memory and kernel launches\<close>

text \<open>
  A device buffer is addressed by element index from its base pointer; \<open>cells\<close> is its
  content and \<open>stores\<close> the indices the kernels have written, in the order written.
  An index outside the tensor is an address outside it, so the content is a total function
  of the index.
\<close>

record 'a devmem =
  cells :: "int \<Rightarrow> 'a"
  stores :: "int list"

definition store :: "'a devmem \<Rightarrow> int \<Rightarrow> 'a \<Rightarrow> 'a devmem" where
  "store m i v = m\<lparr>cells := (cells m)(i := v), stores := stores m @ [i]\<rparr>"

text \<open>A read-only tensor view: base pointer content and \<open>size()\<close>.\<close>

record 'a tensor =
  data :: "int \<Rightarrow> 'a"
  numel :: int

text \<open>Conversion of a value to \<open>int32\<close>: two's complement wrap-around.\<close>

definition s32 :: "int \<Rightarrow> int" where
  "s32 z = (z + 2 ^ 31) mod 2 ^ 32 - 2 ^ 31"

text \<open>
  The operators \<open>/\<close> and \<open>%\<close> of C++ on integers: the quotient is truncated towards
  zero and the remainder takes the sign of the dividend.
\<close>

definition trunc_div :: "int \<Rightarrow> int \<Rightarrow> int" where
  "trunc_div a b = sgn a * sgn b * (\<bar>a\<bar> div \<bar>b\<bar>)"

definition trunc_mod :: "int \<Rightarrow> int \<Rightarrow> int" where
  "trunc_mod a b = a - b * trunc_div a b"

text \<open>
  \<open>Eigen::divup\<close> at \<open>int\<close>, the type of both arguments at every call of the launchers:
  \<open>(x + y - 1) / y\<close>, the sum in \<open>int32\<close>.
\<close>

definition divup :: "int \<Rightarrow> int \<Rightarrow> int" where
  "divup x y = trunc_div (s32 (x + y - 1)) y"

text \<open>
  Modelled from the spec: \<open>GpuLaunchKernel\<close> belongs to the launch-helper layer, which is
  not among the sources. By the specification a launch creates a grid of blocks of
  threads, each thread runs the kernel to completion, and there is no ordering between
  threads. A thread is identified by its flat index
  \<open>blockIdx.x * blockDim.x + threadIdx.x\<close>, which ranges over
  \<open>0 ..< gridDim.x * blockDim.x\<close>; the model runs the threads in the order of that index.
  A kernel is a function of the number of threads \<open>gridDim.x * blockDim.x\<close>, the flat
  index and the output memory.
\<close>

definition GpuLaunchKernel :: "(nat \<Rightarrow> nat \<Rightarrow> 's \<Rightarrow> 's) \<Rightarrow> int \<Rightarrow> int \<Rightarrow> 's \<Rightarrow> 's" where
  "GpuLaunchKernel kern grid_dim block_dim m =
     (let nthreads = nat grid_dim * nat block_dim
      in fold (kern nthreads) [0 ..< nthreads] m)"

text \<open>The same for a kernel with a loop, whose thread may fail to return (\<open>None\<close>).\<close>

definition GpuLaunchKernel_opt ::
  "(nat \<Rightarrow> nat \<Rightarrow> 's \<Rightarrow> 's option) \<Rightarrow> int \<Rightarrow> int \<Rightarrow> 's \<Rightarrow> 's option" where
  "GpuLaunchKernel_opt kern grid_dim block_dim m =
     (let nthreads = nat grid_dim * nat block_dim
      in fold (\<lambda>tid r. Option.bind r (kern nthreads tid)) [0 ..< nthreads] (Some m))"

text \<open>
  Modelled from the spec: \<open>GetGpuLaunchConfigFixedBlockSize\<close> is part of the same
  layer. The launchers use two fields of what it returns, here a record; the function
  itself, applied to the work element count and the fixed block size, is a parameter of
  the launcher models.
\<close>

record gpu_launch_config =
  block_count :: int
  thread_per_block :: int

section \<open>Quant8 forward: kernels and launcher (relu_op_gpu.cu.cc)\<close>

text \<open>
  The routines of \<open>hip_f8_impl\<close> come from \<open>hip_float8.h\<close>, which is not among the
  sources: they are parameters of the model. The template arguments \<open>wm\<close> and \<open>we\<close> are
  the first two arguments; \<open>cast_from_f8\<close> also takes \<open>sizeof(FT)\<close>, which selects its
  result type.
\<close>

record hip_f8_impl =
  cast_to_f8x :: "nat \<Rightarrow> nat \<Rightarrow> elem_bits \<Rightarrow> 16 word"
  cast_to_f8x_stoch :: "nat \<Rightarrow> nat \<Rightarrow> elem_bits \<Rightarrow> 32 word \<Rightarrow> 16 word"
  cast_to_f8 :: "nat \<Rightarrow> nat \<Rightarrow> elem_bits \<Rightarrow> 8 word"
  cast_to_f8_stoch :: "nat \<Rightarrow> nat \<Rightarrow> elem_bits \<Rightarrow> 32 word \<Rightarrow> 8 word"
  cast_from_f8 :: "nat \<Rightarrow> nat \<Rightarrow> nat \<Rightarrow> 8 word \<Rightarrow> elem_bits"

text \<open>
  \<open>Quant8FwdKernel<T,we,wm>\<close>, one thread. The encoding is computed into the local \<open>y\<close>;
  the kernel has no statement that writes \<open>fout[i]\<close>, so the output memory is returned
  as it was.
\<close>

definition Quant8FwdKernel ::
  "hip_f8_impl \<Rightarrow> nat \<Rightarrow> nat \<Rightarrow> (int \<Rightarrow> elem_bits) \<Rightarrow> int \<Rightarrow> int \<Rightarrow> bool \<Rightarrow> 32 word \<Rightarrow>
   nat \<Rightarrow> nat \<Rightarrow> elem_bits devmem \<Rightarrow> elem_bits devmem" where
  "Quant8FwdKernel f8 we wm inp count exp_low_cutoff stoch seed nthreads tid fout =
     (let i = s32 (int tid) in
      if i \<ge> count then fout
      else
        let x = inp i;
            y = (if \<not> stoch then cast_to_f8x f8 wm we x
                 else let rng = Quant8FwdKernel_rng x i seed
                      in cast_to_f8x_stoch f8 wm we x rng)
        in fout)"

text \<open>\<open>Quant8FwdKernel_52<T>\<close>, one thread: here the decoded value is stored.\<close>

definition Quant8FwdKernel_52 ::
  "hip_f8_impl \<Rightarrow> (int \<Rightarrow> elem_bits) \<Rightarrow> int \<Rightarrow> int \<Rightarrow> bool \<Rightarrow> 32 word \<Rightarrow>
   nat \<Rightarrow> nat \<Rightarrow> elem_bits devmem \<Rightarrow> elem_bits devmem" where
  "Quant8FwdKernel_52 f8 inp count exp_low_cutoff stoch seed nthreads tid fout =
     (let i = s32 (int tid) in
      if i \<ge> count then fout
      else
        let x = inp i;
            we = 5; wm = 2;
            y = (if \<not> stoch then cast_to_f8 f8 wm we x
                 else let rng = Quant8FwdKernel_52_rng x i seed
                      in cast_to_f8_stoch f8 wm we x rng)
        in store fout i (cast_from_f8 f8 wm we (sizeof_bits x) y))"

text \<open>\<open>Quant8FwdKernel_43<T>\<close>, one thread.\<close>

definition Quant8FwdKernel_43 ::
  "hip_f8_impl \<Rightarrow> (int \<Rightarrow> elem_bits) \<Rightarrow> int \<Rightarrow> int \<Rightarrow> bool \<Rightarrow> 32 word \<Rightarrow>
   nat \<Rightarrow> nat \<Rightarrow> elem_bits devmem \<Rightarrow> elem_bits devmem" where
  "Quant8FwdKernel_43 f8 inp count exp_low_cutoff stoch seed nthreads tid fout =
     (let i = s32 (int tid) in
      if i \<ge> count then fout
      else
        let x = inp i;
            we = 4; wm = 3;
            y = (if \<not> stoch then cast_to_f8 f8 wm we x
                 else let rng = Quant8FwdKernel_43_rng x i seed
                      in cast_to_f8_stoch f8 wm we x rng)
        in store fout i (cast_from_f8 f8 wm we (sizeof_bits x) y))"

text \<open>The template argument \<open>T\<close> of the launcher.\<close>

datatype scalar_type = T_half | T_float

fun sizeof_T :: "scalar_type \<Rightarrow> nat" where
  "sizeof_T T_half = 2"
| "sizeof_T T_float = 4"

text \<open>
  What the host side of the launcher touches besides the buffers: the lines it prints on
  the standard output (each \<open>printf\<close> of the source prints one line) and the static
  counter \<open>warn_count\<close>.
\<close>

record host_state =
  printed :: "string list"
  warn_count :: int

text \<open>
  The if-chain of \<open>Quant8Fwd<GPUDevice,T>::operator()\<close> that chooses the kernel \<open>op\<close>.
  Every kernel it can choose is an instance \<open>Quant8FwdKernel<T,we,wm>\<close> of the generic
  template, here the pair \<open>(we, wm)\<close>; \<open>op\<close> starts as \<open>Quant8FwdKernel<T,5,3>\<close> and the
  branches that print an error leave it unchanged.
\<close>

definition Quant8Fwd_op :: "scalar_type \<Rightarrow> int \<Rightarrow> int \<Rightarrow> host_state \<Rightarrow> (nat \<times> nat) \<times> host_state" where
  "Quant8Fwd_op T W1 W2 h =
     (let op = (5, 3) in
      if W1 = 4 then
        (if W2 = 1 then ((4, 1), h)
         else if W2 = 2 then ((4, 2), h)
         else if W2 = 3 then ((4, 3), h)
         else (op, h\<lparr>printed := printed h @ [''ERROR: bad W1,W2 values'']\<rparr>))
      else if W1 = 5 \<or> (W1 = 8 \<and> sizeof_T T = 2) then
        (if W2 = 1 then ((5, 1), h)
         else if W2 = 2 then ((5, 2), h)
         else if W2 = 3 then ((5, 3), h)
         else (op, h\<lparr>printed := printed h @ [''ERROR: bad W1,W2 values'']\<rparr>))
      else if W1 = 8 then
        (if W2 = 1 then ((8, 1), h)
         else if W2 = 2 then ((8, 2), h)
         else if W2 = 3 then ((8, 3), h)
         else (op, h\<lparr>printed := printed h @ [''ERROR: bad W1,W2 values'']\<rparr>))
      else (op, h\<lparr>printed := printed h @ [''ERROR: bad W1 value'']\<rparr>))"

text \<open>The warning the launcher prints for \<open>T = float\<close> on its first nine calls.\<close>

definition Quant8Fwd_warn :: "scalar_type \<Rightarrow> host_state \<Rightarrow> host_state" where
  "Quant8Fwd_warn T h =
     (if T = T_float then
        (let h = h\<lparr>warn_count := warn_count h + 1\<rparr> in
         if warn_count h < 10
         then h\<lparr>printed := printed h @ [''WARNING: calling QuantFwd<float>'']\<rparr>
         else h)
      else h)"

text \<open>
  The result of one call of the launcher: the host state, the kernel instance it launched
  (if any) and the output memory. The source function returns \<open>void\<close>.
\<close>

record quant8_call =
  host :: host_state
  launched :: "(nat \<times> nat) option"
  fout_mem :: "elem_bits devmem"

text \<open>
  \<open>Quant8Fwd<GPUDevice,T>::operator()(d, input, output, W1, W2, stoch, dynamic)\<close>. The
  operator has no seed parameter, and its launch passes five kernel arguments
  (\<open>input.data(), output.data(), count, exp_low_cutoff, stoch\<close>) to a kernel of six
  parameters: nothing the caller supplies determines the kernel's \<open>seed\<close>. The model
  takes the value found in that parameter as \<open>seed_slot\<close>. The count is the size of the
  tensor converted to \<open>int32\<close>, and the grid size is computed in \<open>int32\<close>; the shift
  \<open>1 << (exp_width - 1)\<close> is written as a power of two (no kernel reads
  \<open>exp_low_cutoff\<close>). \<open>TF_CHECK_OK\<close> aborts the process when the launch helper
  reports a failure; the model is of the launches that are accepted.
\<close>

definition Quant8Fwd ::
  "hip_f8_impl \<Rightarrow> scalar_type \<Rightarrow> 32 word \<Rightarrow> host_state \<Rightarrow> elem_bits tensor \<Rightarrow> elem_bits devmem \<Rightarrow>
   int \<Rightarrow> int \<Rightarrow> bool \<Rightarrow> bool \<Rightarrow> quant8_call" where
  "Quant8Fwd f8 T seed_slot h input output W1 W2 stoch dynamic =
     (let count = s32 (numel input) in
      if count = 0 then \<lparr>host = h, launched = None, fout_mem = output\<rparr>
      else
        let kThreadInBlock = 256;
            h = Quant8Fwd_warn T h;
            exp_width = W1;
            mant_width = W2;
            logEmax = (if sizeof_T T = 4 then 8 else 5);
            Emax = 2 ^ logEmax;
            exp_low_cutoff = Emax div 2 - 2 ^ nat (exp_width - 1) + 1;
            (op, h) = Quant8Fwd_op T W1 W2 h
        in \<lparr>host = h, launched = Some op,
            fout_mem =
              GpuLaunchKernel
                (Quant8FwdKernel f8 (fst op) (snd op) (data input) count exp_low_cutoff stoch
                   seed_slot)
                (trunc_div (s32 (count + kThreadInBlock - 1)) kThreadInBlock) kThreadInBlock
                output\<rparr>)"

text \<open>The pairs the specification lists as supported.\<close>

definition supported :: "int \<Rightarrow> int \<Rightarrow> bool" where
  "supported W1 W2 = ((W1 = 4 \<or> W1 = 5 \<or> W1 = 8) \<and> (W2 = 1 \<or> W2 = 2 \<or> W2 = 3))"

text \<open>
  A stand-in for the cast routines in closed statements about the launcher, whose kernel
  discards what the routines return.
\<close>

definition f8_const :: hip_f8_impl where
  "f8_const =
     \<lparr>cast_to_f8x = (\<lambda>wm we x. 0), cast_to_f8x_stoch = (\<lambda>wm we x rng. 0),
      cast_to_f8 = (\<lambda>wm we x. 0), cast_to_f8_stoch = (\<lambda>wm we x rng. 0),
      cast_from_f8 = (\<lambda>wm we sz y. Float32 0)\<rparr>"

section \<open>Packed int8 ReLU: kernel and launcher (relu_op_gpu.cu.cc)\<close>


definition int32_bytes :: "int \<Rightarrow> int list" where
  "int32_bytes k = [4 * k, 4 * k + 1, 4 * k + 2, 4 * k + 3]"







section \<open>Half-precision ReLU gradient: kernels and launcher (relu_op_gpu.cu.cc)\<close>

text \<open>
  The device intrinsics on \<open>half2\<close> and \<open>float2\<close> values, lane by lane, the comparison
  of a \<open>float\<close> with zero, and the conversions of \<open>Eigen::half\<close> are not part of the
  sources: they are parameters. \<open>'h\<close> is the type of a 16-bit float, \<open>'f\<close> that of a
  32-bit float, and \<open>'m\<close> that of a lane of the mask that \<open>__hgt2\<close> returns and
  \<open>__hmul2\<close> takes as its first factor (in the source a lane of a \<open>half2\<close>, holding 1.0
  or 0.0).
\<close>

record ('h, 'f, 'm) half_ops =
  half2float :: "'h \<Rightarrow> 'f"
  float2half_rn :: "'f \<Rightarrow> 'h"
  hgt :: "'h \<Rightarrow> 'h \<Rightarrow> 'm"
  hmul :: "'m \<Rightarrow> 'h \<Rightarrow> 'h"
  kZeroH :: "'h"
  fgt_zero :: "'f \<Rightarrow> bool"
  fzero :: "'f"
  eigen_half_to_float :: "'h \<Rightarrow> 'f"
  eigen_float_to_half :: "'f \<Rightarrow> 'h"

text \<open>
  One lane of the \<open>half2\<close> computation that both kernels contain: with
  \<open>__CUDA_ARCH__ >= 530\<close> the mask \<open>__hgt2(feature, 0)\<close> is multiplied by the gradient;
  otherwise the lane is widened to \<open>float\<close>, selected, and narrowed.
\<close>

definition half2_lane :: "('h, 'f, 'm) half_ops \<Rightarrow> bool \<Rightarrow> 'h \<Rightarrow> 'h \<Rightarrow> 'h" where
  "half2_lane ops arch530 gradient_h feature_h =
     (if arch530 then
        (let mask_h = hgt ops feature_h (kZeroH ops)
         in hmul ops mask_h gradient_h)
      else
        (let feature_f = half2float ops feature_h;
             gradient_f = half2float ops gradient_h;
             backprop_f = (if fgt_zero ops feature_f then gradient_f else fzero ops)
         in float2half_rn ops backprop_f))"

text \<open>The scalar computation of the remaining elements, the same in both kernels.\<close>

definition half_scalar :: "('h, 'f, 'm) half_ops \<Rightarrow> 'h \<Rightarrow> 'h \<Rightarrow> 'h" where
  "half_scalar ops grad_h feature_h =
     (let grad_f = eigen_half_to_float ops grad_h;
          feature_f = eigen_half_to_float ops feature_h;
          backprop_f = (if fgt_zero ops feature_f then grad_f else fzero ops)
      in eigen_float_to_half ops backprop_f)"

text \<open>
  The \<open>while\<close> loop of \<open>ReluGradHalfKernel\<close>: the \<open>half2\<close> of index \<open>index\<close> is the two
  elements \<open>2 * index\<close> and \<open>2 * index + 1\<close>. The loop returns the index it ends with.
  The kernel's \<open>count >> 1\<close> and \<open>count & 0x1\<close> are \<open>count div 2\<close> and \<open>count mod 2\<close>,
  whatever the sign of the count.
\<close>

partial_function (option) ReluGradHalfKernel_loop ::
  "('h, 'f, 'm) half_ops \<Rightarrow> bool \<Rightarrow> (int \<Rightarrow> 'h) \<Rightarrow> (int \<Rightarrow> 'h) \<Rightarrow> int \<Rightarrow> int \<Rightarrow> int \<Rightarrow> 'h devmem \<Rightarrow>
   (int \<times> 'h devmem) option" where
  "ReluGradHalfKernel_loop ops arch530 gradient feature half2_count total_device_threads
       index backprop =
     (if index < half2_count
      then ReluGradHalfKernel_loop ops arch530 gradient feature half2_count total_device_threads
             (s32 (index + total_device_threads))
             (store
               (store backprop (2 * index)
                  (half2_lane ops arch530 (gradient (2 * index)) (feature (2 * index))))
               (2 * index + 1)
               (half2_lane ops arch530 (gradient (2 * index + 1)) (feature (2 * index + 1))))
      else Some (index, backprop))"

text \<open>\<open>ReluGradHalfKernel\<close>, one thread.\<close>

definition ReluGradHalfKernel ::
  "('h, 'f, 'm) half_ops \<Rightarrow> bool \<Rightarrow> (int \<Rightarrow> 'h) \<Rightarrow> (int \<Rightarrow> 'h) \<Rightarrow> int \<Rightarrow>
   nat \<Rightarrow> nat \<Rightarrow> 'h devmem \<Rightarrow> 'h devmem option" where
  "ReluGradHalfKernel ops arch530 gradient feature count nthreads tid backprop =
     (let half2_count = count div 2;
          index = s32 (int tid);
          total_device_threads = s32 (int nthreads)
      in case ReluGradHalfKernel_loop ops arch530 gradient feature half2_count
                total_device_threads index backprop of
           None \<Rightarrow> None
         | Some (index, backprop) \<Rightarrow>
             if count mod 2 = 1 \<and> index = half2_count
             then Some (store backprop (count - 1)
                          (half_scalar ops (gradient (count - 1)) (feature (count - 1))))
             else Some backprop)"

text \<open>
  \<open>ReluGradHalfKernelVector\<close>, one thread: the eight elements \<open>8 * index .. 8 * index + 7\<close>
  as four \<open>half2\<close>, then one of the remaining elements.
\<close>

definition VectorSizeElements :: int where
  "VectorSizeElements = 8"

definition ReluGradHalfKernelVector ::
  "('h, 'f, 'm) half_ops \<Rightarrow> bool \<Rightarrow> (int \<Rightarrow> 'h) \<Rightarrow> (int \<Rightarrow> 'h) \<Rightarrow> int \<Rightarrow>
   nat \<Rightarrow> nat \<Rightarrow> 'h devmem \<Rightarrow> 'h devmem" where
  "ReluGradHalfKernelVector ops arch530 gradient feature count nthreads tid backprop =
     (let half8_count = trunc_div count VectorSizeElements;
          index = s32 (int tid);
          backprop =
            (if index < half8_count
             then fold (\<lambda>i b.
                     store
                       (store b (8 * index + 2 * i)
                          (half2_lane ops arch530 (gradient (8 * index + 2 * i))
                             (feature (8 * index + 2 * i))))
                       (8 * index + 2 * i + 1)
                       (half2_lane ops arch530 (gradient (8 * index + 2 * i + 1))
                          (feature (8 * index + 2 * i + 1))))
                    (map int [0 ..< nat (VectorSizeElements div 2)]) backprop
             else backprop);
          remaining_count = trunc_mod count VectorSizeElements
      in if index < remaining_count
         then store backprop (half8_count * VectorSizeElements + index)
                (half_scalar ops (gradient (half8_count * VectorSizeElements + index))
                   (feature (half8_count * VectorSizeElements + index)))
         else backprop)"

text \<open>
  \<open>ReluGrad<Device, Eigen::half>::operator()\<close>. The three pointers are given as
  addresses. The count is the size of the tensor converted to \<open>int32\<close>.
\<close>

definition ReluGrad_half ::
  "('h, 'f, 'm) half_ops \<Rightarrow> bool \<Rightarrow> (int \<Rightarrow> int \<Rightarrow> gpu_launch_config) \<Rightarrow> nat \<Rightarrow> nat \<Rightarrow> nat \<Rightarrow>
   'h tensor \<Rightarrow> 'h tensor \<Rightarrow> 'h devmem \<Rightarrow> 'h devmem option" where
  "ReluGrad_half ops arch530 GetGpuLaunchConfigFixedBlockSize gradient_ptr feature_ptr
       backprop_ptr gradient feature backprop =
     (let aligned = (gradient_ptr mod 16 = 0 \<and> feature_ptr mod 16 = 0 \<and> backprop_ptr mod 16 = 0);
          count = s32 (numel gradient);
          kThreadInBlock = 512
      in if count = 0 then Some backprop
         else if aligned then
           (let half8_count = divup count VectorSizeElements;
                kBlock = divup half8_count kThreadInBlock
            in Some (GpuLaunchKernel
                       (ReluGradHalfKernelVector ops arch530 (data gradient) (data feature) count)
                       kBlock kThreadInBlock backprop))
         else
           (let half2_count = divup count 2;
                config = GetGpuLaunchConfigFixedBlockSize half2_count kThreadInBlock
            in GpuLaunchKernel_opt
                 (ReluGradHalfKernel ops arch530 (data gradient) (data feature) count)
                 (block_count config) (thread_per_block config) backprop))"

text \<open>
  An instance of the parameters on bit patterns, for closed statements. It follows
  IEEE 754 binary16: a pattern is a NaN when its low 15 bits exceed \<open>0x7C00\<close> and an
  infinity when they equal it; \<open>a > b\<close> holds when neither is a NaN and \<open>a\<close> is the
  larger in sign and magnitude (the two zeros are equal). A mask lane is represented by
  the truth value it stands for. The product of the mask 1.0 and \<open>g\<close> is \<open>g\<close>; the
  product of the mask 0.0 and a finite \<open>g\<close> is the zero with the sign of \<open>g\<close>, and with
  an infinite \<open>g\<close> it is a NaN; a NaN result is given as the pattern \<open>0x7FFF\<close>. A
  \<open>float\<close> that holds the value of a 16-bit float is represented by the 16-bit pattern of
  that value, so the widening conversions, and the narrowing ones, which are exact on such
  values, are the identity.
\<close>

definition half_is_nan :: "16 word \<Rightarrow> bool" where
  "half_is_nan x = (0x7C00 < (x AND 0x7FFF))"

definition half_is_inf :: "16 word \<Rightarrow> bool" where
  "half_is_inf x = (x AND 0x7FFF = 0x7C00)"

definition half_order :: "16 word \<Rightarrow> int" where
  "half_order x = (if bit x 15 then - uint (x AND 0x7FFF) else uint (x AND 0x7FFF))"

definition half_gt :: "16 word \<Rightarrow> 16 word \<Rightarrow> bool" where
  "half_gt a b = (\<not> half_is_nan a \<and> \<not> half_is_nan b \<and> half_order b < half_order a)"

definition half_mul_mask :: "bool \<Rightarrow> 16 word \<Rightarrow> 16 word" where
  "half_mul_mask m g =
     (if half_is_nan g then 0x7FFF
      else if m then g
      else if half_is_inf g then 0x7FFF
      else g AND 0x8000)"

definition ieee_half_ops :: "(16 word, 16 word, bool) half_ops" where
  "ieee_half_ops =
     \<lparr>half2float = (\<lambda>h. h), float2half_rn = (\<lambda>x. x),
      hgt = half_gt, hmul = half_mul_mask, kZeroH = 0,
      fgt_zero = (\<lambda>x. half_gt x 0), fzero = 0,
      eigen_half_to_float = (\<lambda>h. h), eigen_float_to_half = (\<lambda>x. x)\<rparr>"

section \<open>Auxiliary notions for the proofs\<close>

text \<open>
  The indices a grid-stride loop with bound \<open>n\<close> and stride \<open>d\<close> visits from \<open>i\<close>, and
  the index it ends with, as total functions.
\<close>

function stride_idx :: "int \<Rightarrow> int \<Rightarrow> int \<Rightarrow> int list" where
  "stride_idx n d i = (if i < n \<and> 0 < d then i # stride_idx n d (i + d) else [])"
  by pat_completeness auto
termination
  by (relation "measure (\<lambda>(n, d, i). nat (n - i))") auto

function stride_end :: "int \<Rightarrow> int \<Rightarrow> int \<Rightarrow> int" where
  "stride_end n d i = (if i < n \<and> 0 < d then stride_end n d (i + d) else i)"
  by pat_completeness auto
termination
  by (relation "measure (\<lambda>(n, d, i). nat (n - i))") auto

declare stride_idx.simps [simp del] stride_end.simps [simp del]

text \<open>The indices all \<open>T\<close> threads of a launch visit, thread after thread.\<close>

definition all_idx :: "int \<Rightarrow> nat \<Rightarrow> int list" where
  "all_idx n T = concat (map (\<lambda>tid. stride_idx n (int T) (int tid)) [0 ..< T])"

text \<open>Storing at each index of a list the value a function gives for that index.\<close>

definition stores_at :: "(int \<Rightarrow> 'a) \<Rightarrow> int list \<Rightarrow> 'a devmem \<Rightarrow> 'a devmem" where
  "stores_at v js m = fold (\<lambda>j m. store m j (v j)) js m"

text \<open>The element indices of a list of \<open>half2\<close> indices, and of one group of eight.\<close>

definition half2_idx :: "int list \<Rightarrow> int list" where
  "half2_idx ks = concat (map (\<lambda>k. [2 * k, 2 * k + 1]) ks)"

definition half8_idx :: "int \<Rightarrow> int list" where
  "half8_idx index = concat (map (\<lambda>i. [8 * index + 2 * i, 8 * index + 2 * i + 1]) [0, 1, 2, 3])"

text \<open>
  What the paired kernel writes at an element index, and the indices the thread \<open>tid\<close> of
  \<open>T\<close> writes, in order.
\<close>

definition paired_val ::
  "('h, 'f, 'm) half_ops \<Rightarrow> bool \<Rightarrow> (int \<Rightarrow> 'h) \<Rightarrow> (int \<Rightarrow> 'h) \<Rightarrow> int \<Rightarrow> int \<Rightarrow> 'h" where
  "paired_val ops a g f count j =
     (if j < 2 * (count div 2) then half2_lane ops a (g j) (f j) else half_scalar ops (g j) (f j))"

definition paired_idx :: "int \<Rightarrow> nat \<Rightarrow> nat \<Rightarrow> int list" where
  "paired_idx count T tid =
     half2_idx (stride_idx (count div 2) (int T) (int tid)) @
     (if count mod 2 = 1 \<and> stride_end (count div 2) (int T) (int tid) = count div 2
      then [count - 1] else [])"

text \<open>The same for the 8-wide kernel, and the number of threads its launch has.\<close>

definition wide_val ::
  "('h, 'f, 'm) half_ops \<Rightarrow> bool \<Rightarrow> (int \<Rightarrow> 'h) \<Rightarrow> (int \<Rightarrow> 'h) \<Rightarrow> int \<Rightarrow> int \<Rightarrow> 'h" where
  "wide_val ops a g f count j =
     (if j < 8 * (count div 8) then half2_lane ops a (g j) (f j) else half_scalar ops (g j) (f j))"

definition wide_idx :: "int \<Rightarrow> nat \<Rightarrow> int list" where
  "wide_idx count tid =
     (if int tid < count div 8 then half8_idx (int tid) else []) @
     (if int tid < count mod 8 then [count div 8 * 8 + int tid] else [])"

definition wide_threads :: "int \<Rightarrow> nat" where
  "wide_threads count = nat (divup (divup count 8) 512) * nat 512"

section \<open>Properties\<close>

subsection \<open>Bits of the packed int8 ReLU\<close>

lemma max_s8_zero: "max_s8 b 0 = (if bit b 7 then 0 else b)"
  using bit_last_iff [of b] by (simp add: max_s8_def)

lemma bit_sign_mask: "bit (0x80808080 :: 32 word) n = (n < 32 \<and> n mod 8 = 7)"
proof (cases "n < 32")
  case True
  then have "n \<in> set [0..<32]" by simp
  then show ?thesis
    unfolding upt_rec [of 0] by (simp add: upt_rec) (elim disjE; simp)
next
  case False
  then show ?thesis by (simp add: impossible_bit)
qed

lemma bit_low_mask: "bit (0x7f7f7f7f :: 32 word) n = (n < 32 \<and> n mod 8 \<noteq> 7)"
proof (cases "n < 32")
  case True
  then have "n \<in> set [0..<32]" by simp
  then show ?thesis
    unfolding upt_rec [of 0] by (simp add: upt_rec) (elim disjE; simp)
next
  case False
  then show ?thesis by (simp add: impossible_bit)
qed

lemma bit_Relu_int8x4_word:
  "bit (Relu_int8x4_word w) n =
     (n < 32 \<and> bit w n \<and> n mod 8 \<noteq> 7 \<and> \<not> bit w (8 * (n div 8) + 7))"
proof (cases "n < 32")
  case False
  then show ?thesis by (simp add: impossible_bit)
next
  case True
  define s0 where "s0 = NOT w AND 0x80808080"
  define s1 where "s1 = drop_bit 7 s0"
  define s2 where "s2 = s1 OR push_bit 1 s1"
  define s3 where "s3 = s2 OR push_bit 2 s2"
  define s4 where "s4 = s3 OR push_bit 4 s3"
  define s5 where "s5 = s4 AND 0x7f7f7f7f"
  have r: "Relu_int8x4_word w = w AND s5"
    by (simp only: Relu_int8x4_word_def Let_def s0_def s1_def s2_def s3_def s4_def s5_def)
  have b0: "bit s0 k = (\<not> bit w k \<and> k < 32 \<and> k mod 8 = 7)" for k
    unfolding s0_def by (simp only: bit_and_iff bit_not_iff bit_sign_mask) auto
  have b1: "bit s1 k = bit s0 (k + 7)" for k
    unfolding s1_def by (simp only: bit_drop_bit_eq o_def add.commute)
  have b2: "bit s2 k = (bit s1 k \<or> (1 \<le> k \<and> k < 32 \<and> bit s1 (k - 1)))" for k
    unfolding s2_def by (simp only: bit_or_iff bit_push_bit_iff) (auto simp: bit_simps)
  have b3: "bit s3 k = (bit s2 k \<or> (2 \<le> k \<and> k < 32 \<and> bit s2 (k - 2)))" for k
    unfolding s3_def by (simp only: bit_or_iff bit_push_bit_iff) (auto simp: bit_simps)
  have b4: "bit s4 k = (bit s3 k \<or> (4 \<le> k \<and> k < 32 \<and> bit s3 (k - 4)))" for k
    unfolding s4_def by (simp only: bit_or_iff bit_push_bit_iff) (auto simp: bit_simps)
  have b5: "bit s5 k = (bit s4 k \<and> k < 32 \<and> k mod 8 \<noteq> 7)" for k
    unfolding s5_def by (simp only: bit_and_iff bit_low_mask)
  from True have "n \<in> set [0..<32]" by simp
  then show ?thesis
    unfolding r bit_and_iff b5 b4 b3 b2 b1 b0 upt_rec [of 0]
    by (simp add: upt_rec) (elim disjE; simp)
qed

lemma bit_lane: "bit (lane k w) n = (n < 8 \<and> bit w (8 * k + n))"
  by (auto simp: lane_def bit_simps)

lemma bit_pack4:
  "bit (pack4 b0 b1 b2 b3) n =
     (if n < 8 then bit b0 n else if n < 16 then bit b1 (n - 8)
      else if n < 24 then bit b2 (n - 16) else if n < 32 then bit b3 (n - 24) else False)"
  by (auto simp: pack4_def bit_simps dest: bit_imp_le_length)

lemma bit_relu_int8x4_ref_lane:
  assumes m: "m < 8" and j: "j < 4"
  shows "bit (relu_int8x4_ref w) (8 * j + m) =
           (bit w (8 * j + m) \<and> m \<noteq> 7 \<and> \<not> bit w (8 * j + 7))"
proof -
  from j have "j = 0 \<or> j = 1 \<or> j = 2 \<or> j = 3" by arith
  then show ?thesis
    using m by (elim disjE) (auto simp: relu_int8x4_ref_def bit_pack4 max_s8_zero bit_lane)
qed

lemma bit_relu_int8x4_ref:
  "bit (relu_int8x4_ref w) n =
     (n < 32 \<and> bit w n \<and> n mod 8 \<noteq> 7 \<and> \<not> bit w (8 * (n div 8) + 7))"
proof (cases "n < 32")
  case True
  then have "n mod 8 < 8" "n div 8 < 4" by simp_all
  from bit_relu_int8x4_ref_lane [OF this, of w] True show ?thesis by simp
next
  case False
  then show ?thesis by (simp add: impossible_bit)
qed

lemma Relu_int8x4_word_ref: "Relu_int8x4_word w = relu_int8x4_ref w"
  by (rule bit_word_eqI) (simp only: bit_Relu_int8x4_word bit_relu_int8x4_ref)

lemma lane_Relu_int8x4_word:
  assumes "k < 4"
  shows "lane k (Relu_int8x4_word w) = max_s8 (lane k w) 0"
proof (rule bit_word_eqI)
  fix n assume "n < LENGTH(8)"
  then have n: "n < 8" by simp
  with assms have "8 * k + n < 32" "(8 * k + n) mod 8 = n" "(8 * k + n) div 8 = k"
    by simp_all
  with n show "bit (lane k (Relu_int8x4_word w)) n = bit (max_s8 (lane k w) 0) n"
    by (auto simp: bit_lane bit_Relu_int8x4_word max_s8_zero)
qed

text \<open>
  C5: for every 32-bit word holding four signed 8-bit lanes, the bit-parallel fallback of
  \<open>Relu_int8x4_kernel\<close> yields the word obtained by replacing every lane \<open>b\<close> with
  \<open>max(b, 0)\<close>; lane by lane, the result lane is the signed maximum of the input lane and
  zero.
\<close>

theorem Relu_int8x4_fallback_lanewise_max:
  "Relu_int8x4_word w = relu_int8x4_ref w \<and>
   lane 0 (Relu_int8x4_word w) = max_s8 (lane 0 w) 0 \<and>
   lane 1 (Relu_int8x4_word w) = max_s8 (lane 1 w) 0 \<and>
   lane 2 (Relu_int8x4_word w) = max_s8 (lane 2 w) 0 \<and>
   lane 3 (Relu_int8x4_word w) = max_s8 (lane 3 w) 0"
proof -
  have "lane 0 (Relu_int8x4_word w) = max_s8 (lane 0 w) 0"
    and "lane 1 (Relu_int8x4_word w) = max_s8 (lane 1 w) 0"
    and "lane 2 (Relu_int8x4_word w) = max_s8 (lane 2 w) 0"
    and "lane 3 (Relu_int8x4_word w) = max_s8 (lane 3 w) 0"
    by (simp_all add: lane_Relu_int8x4_word)
  with Relu_int8x4_word_ref [of w] show ?thesis
    by (simp only: simp_thms)
qed

subsection \<open>ReLU6 backward\<close>

lemma Relu6Grad_length:
  "length (Relu6Grad gradients features) = min (length gradients) (length features)"
  by (simp add: Relu6Grad_def)

lemma Relu6Grad_nth:
  fixes gradients :: "'a::linordered_idom list"
  assumes "i < length gradients" "i < length features"
  shows "Relu6Grad gradients features ! i =
           (if 0 < features ! i \<and> features ! i < 6 then gradients ! i else 0)"
  using assms by (simp add: Relu6Grad_def)

lemma isnan_linorder: "isnan (x :: 'a::linorder) = False"
  by (simp add: isnan_def)

lemma Relu6Grad_Relu6:
  fixes gradients :: "'a::linordered_idom list"
  shows "Relu6Grad gradients (Relu6 features) = Relu6Grad gradients features"
proof -
  have "(0 < cwiseMin (cwiseMax x 0) 6 \<and> cwiseMin (cwiseMax x 0) 6 < 6) = (0 < x \<and> x < 6)"
    for x :: 'a
    by (auto simp: cwiseMin_def cwiseMax_def isnan_linorder)
  then show ?thesis
    by (simp add: Relu6Grad_def Relu6_def zip_map2 case_prod_unfold)
qed

lemma numeral_fp_value: "(numeral k :: fp_value) = Finite (numeral k)"
proof (induction k)
  case One
  show ?case by (simp add: one_fp_value_def)
next
  case (Bit0 k)
  have "(numeral (num.Bit0 k) :: fp_value) = numeral k + numeral k"
    by (rule numeral.simps)
  also have "\<dots> = Finite (numeral k + numeral k)"
    by (simp only: Bit0 plus_fp_value.simps)
  also have "numeral k + numeral k = (numeral (num.Bit0 k) :: rat)"
    by (simp only: numeral.simps)
  finally show ?case .
next
  case (Bit1 k)
  have "(numeral (num.Bit1 k) :: fp_value) = numeral k + numeral k + 1"
    by (rule numeral.simps)
  also have "\<dots> = Finite (numeral k + numeral k + 1)"
    by (simp only: Bit1 plus_fp_value.simps one_fp_value_def)
  also have "numeral k + numeral k + 1 = (numeral (num.Bit1 k) :: rat)"
    by (simp only: numeral.simps)
  finally show ?case .
qed

lemma times_one_fp: "g * (1 :: fp_value) = g"
  by (cases g) (simp_all add: times_fp_value_def one_fp_value_def signed_zero_def signed_inf_def)

lemma times_zero_fp:
  "g * (0 :: fp_value) = (if is_finite g then signed_zero (sign_bit g) else NaN)"
  by (cases g) (simp_all add: times_fp_value_def zero_fp_value_def signed_zero_def signed_inf_def)

lemma isnan_fp: "isnan (x :: fp_value) = (x = NaN)"
  by (cases x) (simp_all add: isnan_def less_eq_fp_value_def)

lemma mask_Relu6_fp:
  "(0 < cwiseMin (cwiseMax x 0) 6 \<and> cwiseMin (cwiseMax x 0) 6 < 6) =
     (0 < x \<and> x < (6 :: fp_value))"
  by (cases x)
    (auto simp: cwiseMin_def cwiseMax_def isnan_fp numeral_fp_value zero_fp_value_def
       less_fp_value_def)

lemma Relu6Grad_nth_fp:
  fixes gradients :: "fp_value list"
  assumes "i < length gradients" "i < length features"
  shows "Relu6Grad gradients features ! i =
           (if 0 < features ! i \<and> features ! i < 6 then gradients ! i
            else if is_finite (gradients ! i) then signed_zero (sign_bit (gradients ! i))
            else NaN)"
  using assms by (simp add: Relu6Grad_def times_one_fp times_zero_fp)

lemma Relu6Grad_boundary_fp:
  "Relu6Grad [g] [0 :: fp_value] = [if is_finite g then signed_zero (sign_bit g) else NaN]"
  "Relu6Grad [g] [6 :: fp_value] = [if is_finite g then signed_zero (sign_bit g) else NaN]"
  by (simp_all add: Relu6Grad_def times_zero_fp less_fp_value_def)

lemma Relu6Grad_Relu6_fp:
  "Relu6Grad gradients (Relu6 features) = Relu6Grad gradients (features :: fp_value list)"
  by (simp add: Relu6Grad_def Relu6_def zip_map2 case_prod_unfold mask_Relu6_fp)

text \<open>
  C7 (as amended): for every feature \<open>x\<close> and every finite gradient \<open>g\<close>, \<open>Relu6Grad\<close>
  returns \<open>g\<close> when \<open>x\<close> is strictly between 0 and 6 and a zero otherwise, which for a
  floating-point scalar type is the product \<open>g * 0\<close>, the zero with the sign of \<open>g\<close>; for
  a gradient that is an infinity or a NaN and a feature not strictly between 0 and 6 (a
  NaN feature included) the result is a NaN. At the features 0 and 6 themselves the mask
  is zero, and for every gradient the backprop computed from the output of \<open>Relu6\<close> is the
  one computed from its input. For an integer scalar type every gradient is finite and the
  result outside the interval is 0.
\<close>

theorem Relu6Grad_open_interval:
  fixes gradients features :: "fp_value list"
    and int_gradients int_features :: "'a::linordered_idom list"
  assumes "length features = length gradients"
    and "length int_features = length int_gradients"
  shows "length (Relu6Grad gradients features) = length gradients \<and>
         (\<forall>i < length gradients.
            Relu6Grad gradients features ! i =
              (if 0 < features ! i \<and> features ! i < 6 then gradients ! i
               else if is_finite (gradients ! i) then signed_zero (sign_bit (gradients ! i))
               else NaN)) \<and>
         Relu6Grad [g] [0] = [if is_finite g then signed_zero (sign_bit g) else NaN] \<and>
         Relu6Grad [g] [6] = [if is_finite g then signed_zero (sign_bit g) else NaN] \<and>
         Relu6Grad gradients (Relu6 features) = Relu6Grad gradients features \<and>
         length (Relu6Grad int_gradients int_features) = length int_gradients \<and>
         (\<forall>i < length int_gradients.
            Relu6Grad int_gradients int_features ! i =
              (if 0 < int_features ! i \<and> int_features ! i < 6 then int_gradients ! i else 0)) \<and>
         Relu6Grad [n :: 'a] [0] = [0] \<and> Relu6Grad [n :: 'a] [6] = [0] \<and>
         Relu6Grad int_gradients (Relu6 int_features) = Relu6Grad int_gradients int_features"
proof -
  have "length (Relu6Grad gradients features) = length gradients"
    and "length (Relu6Grad int_gradients int_features) = length int_gradients"
    using assms by (simp_all add: Relu6Grad_length)
  moreover have "\<forall>i < length gradients.
            Relu6Grad gradients features ! i =
              (if 0 < features ! i \<and> features ! i < 6 then gradients ! i
               else if is_finite (gradients ! i) then signed_zero (sign_bit (gradients ! i))
               else NaN)"
    using assms(1) by (simp add: Relu6Grad_nth_fp)
  moreover have "\<forall>i < length int_gradients.
            Relu6Grad int_gradients int_features ! i =
              (if 0 < int_features ! i \<and> int_features ! i < 6 then int_gradients ! i else 0)"
    using assms(2) by (simp add: Relu6Grad_nth)
  moreover have "Relu6Grad [n :: 'a] [0] = [0]" "Relu6Grad [n :: 'a] [6] = [0]"
    by (simp_all add: Relu6Grad_def)
  ultimately show ?thesis
    by (simp only: Relu6Grad_boundary_fp Relu6Grad_Relu6_fp Relu6Grad_Relu6 simp_thms)
qed

theorem Relu6Grad_open_interval_witness:
  "Relu6Grad [Finite 7, Finite (-7), NegInf] [Finite 3, 0, Finite 7] ! 0 = Finite 7 \<and>
   Relu6Grad [Finite 7, Finite (-7), NegInf] [Finite 3, 0, Finite 7] ! 1 = NegZero \<and>
   Relu6Grad [Finite 7, Finite (-7), NegInf] [Finite 3, 0, Finite 7] ! 2 = NaN \<and>
   Relu6Grad [7, 7, 7 :: int] [0, 3, 6] ! 0 = 0 \<and>
   Relu6Grad [7, 7, 7 :: int] [0, 3, 6] ! 1 = 7 \<and>
   Relu6Grad [7, 7, 7 :: int] [0, 3, 6] ! 2 = 0"
proof -
  have len: "length [Finite 3, 0, Finite 7] = length [Finite 7, Finite (-7), NegInf]"
    "length [0, 3, 6 :: int] = length [7, 7, 7 :: int]"
    by simp_all
  note t = Relu6Grad_open_interval [OF len, of NaN 0]
  note f = t [THEN conjunct2, THEN conjunct1, rule_format]
  note i = t [THEN conjunct2, THEN conjunct2, THEN conjunct2, THEN conjunct2, THEN conjunct2,
      THEN conjunct2, THEN conjunct1, rule_format]
  have "Relu6Grad [Finite 7, Finite (-7), NegInf] [Finite 3, 0, Finite 7] ! 0 = Finite 7"
    using f [of 0] by (simp add: less_fp_value_def zero_fp_value_def numeral_fp_value)
  moreover have "Relu6Grad [Finite 7, Finite (-7), NegInf] [Finite 3, 0, Finite 7] ! 1 = NegZero"
    using f [of 1] by (simp add: less_fp_value_def zero_fp_value_def signed_zero_def)
  moreover have "Relu6Grad [Finite 7, Finite (-7), NegInf] [Finite 3, 0, Finite 7] ! 2 = NaN"
    using f [of 2] by (simp add: less_fp_value_def zero_fp_value_def numeral_fp_value)
  moreover have "Relu6Grad [7, 7, 7 :: int] [0, 3, 6] ! 0 = 0"
    using i [of 0] by simp
  moreover have "Relu6Grad [7, 7, 7 :: int] [0, 3, 6] ! 1 = 7"
    using i [of 1] by simp
  moreover have "Relu6Grad [7, 7, 7 :: int] [0, 3, 6] ! 2 = 0"
    using i [of 2] by simp
  ultimately show ?thesis by simp
qed

text \<open>
  The claim as stated fails at a floating-point scalar type: with an infinite gradient
  the result at the feature 7, outside the interval, and at the boundary features 0 and 6
  is the product of the infinity and the mask 0, a NaN and not a zero; so it is with a NaN
  gradient.
\<close>

theorem Relu6Grad_open_interval_counterexample:
  "Relu6Grad [PosInf] [Finite 7] = [NaN] \<and>
   Relu6Grad [PosInf] [0] = [NaN] \<and>
   Relu6Grad [PosInf] [6] = [NaN] \<and>
   Relu6Grad [NaN] [Finite 7] = [NaN] \<and>
   \<not> is_zero NaN \<and> NaN \<noteq> (0 :: fp_value)"
  by (simp add: Relu6Grad_def times_fp_value_def zero_fp_value_def numeral_fp_value
      less_fp_value_def)

subsection \<open>LeakyReLU forward\<close>



subsection \<open>The random word of the stochastic rounding\<close>

lemma low16_mask: "(0xFFFF :: 32 word) = mask 16"
  by (simp add: mask_eq_exp_minus_1)

lemma spec_drop_code:
  "spec_drop x =
     (if sizeof_bits x = 4 then (to_uint32 x AND 0xFFFF) XOR drop_bit 16 (to_uint32 x)
      else to_uint32 x AND 0xFFFF)"
proof (cases x)
  case (Half16 h)
  have "(ucast h :: 32 word) AND mask 16 = ucast h"
    by (rule bit_word_eqI) (auto simp: bit_simps dest: bit_imp_le_length)
  with Half16 show ?thesis by (simp add: spec_drop_def low16_mask)
next
  case (Float32 w)
  have "take_bit 16 w = w AND mask 16"
    by (simp add: take_bit_eq_mask)
  with Float32 show ?thesis by (simp add: spec_drop_def low16_mask)
qed

text \<open>
  C2 (as amended): the generic kernel and the \<open>_52\<close> kernel derive the random word exactly
  as the specification states; the \<open>_43\<close> kernel adds the thread index to the rotated
  value, with 32-bit wrap, before the multiplication, and is otherwise the same.
\<close>

theorem Quant8Fwd_rng_derivation:
  "Quant8FwdKernel_rng x i seed = spec_rng x i seed \<and>
   Quant8FwdKernel_52_rng x i seed = spec_rng x i seed \<and>
   Quant8FwdKernel_43_rng x i seed =
     ((spec_rotate (spec_drop x) + word_of_int i) * 0x7000149)
       XOR 0x13371337 XOR word_of_int (i * 229791) XOR seed"
  unfolding Quant8FwdKernel_rng_def Quant8FwdKernel_52_rng_def Quant8FwdKernel_43_rng_def
      spec_rng_def spec_rotate_def spec_drop_code Let_def
  by (simp only: simp_thms split: if_splits)

text \<open>
  The claim as stated, with no additional step in any specialization, fails for the
  \<open>_43\<close> kernel: for the all-zero 16-bit pattern at index 1 with seed 0 it computes
  \<open>0x143493E1\<close>, where the stated derivation gives \<open>0x133492A8\<close>.
\<close>

theorem Quant8FwdKernel_43_rng_counterexample:
  "Quant8FwdKernel_43_rng (Half16 0) 1 0 = 0x143493E1 \<and>
   spec_rng (Half16 0) 1 0 = 0x133492A8 \<and>
   Quant8FwdKernel_43_rng (Half16 0) 1 0 \<noteq> spec_rng (Half16 0) 1 0"
  by (simp add: Quant8FwdKernel_43_rng_def spec_rng_def spec_rotate_def spec_drop_def Let_def)

subsection \<open>The integer arithmetic of the launchers\<close>

lemma s32_id: "- (2 ^ 31) \<le> z \<Longrightarrow> z < 2 ^ 31 \<Longrightarrow> s32 z = z"
  by (simp add: s32_def)

lemma trunc_div_nonneg: "0 \<le> a \<Longrightarrow> 0 < b \<Longrightarrow> trunc_div a b = a div b"
  by (cases "a = 0") (simp_all add: trunc_div_def)

lemma trunc_mod_nonneg: "0 \<le> a \<Longrightarrow> 0 < b \<Longrightarrow> trunc_mod a b = a mod b"
  by (simp add: trunc_mod_def trunc_div_nonneg minus_mult_div_eq_mod)

lemma divup_eq:
  "0 \<le> x \<Longrightarrow> 0 < y \<Longrightarrow> x + y - 1 < 2 ^ 31 \<Longrightarrow> divup x y = (x + y - 1) div y"
  by (simp add: divup_def s32_id trunc_div_nonneg)

subsection \<open>Quant8 forward: what the launcher stores, prints and launches\<close>

lemma Quant8FwdKernel_skip:
  "Quant8FwdKernel f8 we wm inp count exp_low_cutoff stoch seed nthreads tid fout = fout"
  by (simp add: Quant8FwdKernel_def Let_def)

lemma fold_skip: "(\<And>x m. f x m = m) \<Longrightarrow> fold f xs m = m"
  by (induction xs) simp_all

lemma GpuLaunchKernel_Quant8FwdKernel:
  "GpuLaunchKernel (Quant8FwdKernel f8 we wm inp count exp_low_cutoff stoch seed) g b fout = fout"
  unfolding GpuLaunchKernel_def Let_def by (rule fold_skip) (rule Quant8FwdKernel_skip)

lemma Quant8Fwd_fout_mem:
  "fout_mem (Quant8Fwd f8 T seed_slot h input output W1 W2 stoch dynamic) = output"
  by (simp add: Quant8Fwd_def Let_def GpuLaunchKernel_Quant8FwdKernel split: prod.splits)

lemma Quant8FwdKernel_52_stores:
  assumes "int tid < count" "count < 2 ^ 31"
  shows "stores (Quant8FwdKernel_52 f8 inp count c stoch seed n tid fout) = stores fout @ [int tid]"
    and "cells (Quant8FwdKernel_52 f8 inp count c False seed n tid fout) (int tid) =
           cast_from_f8 f8 2 5 (sizeof_bits (inp (int tid))) (cast_to_f8 f8 2 5 (inp (int tid)))"
proof -
  from assms have "s32 (int tid) = int tid"
    by (simp add: s32_def)
  with assms show
    "stores (Quant8FwdKernel_52 f8 inp count c stoch seed n tid fout) = stores fout @ [int tid]"
    "cells (Quant8FwdKernel_52 f8 inp count c False seed n tid fout) (int tid) =
           cast_from_f8 f8 2 5 (sizeof_bits (inp (int tid))) (cast_to_f8 f8 2 5 (inp (int tid)))"
    by (simp_all add: Quant8FwdKernel_52_def Let_def store_def)
qed

text \<open>
  C1: the claim asks that for every supported pair the launched kernel writes the decoded
  value to \<open>output[i]\<close>. The launcher only ever launches the generic kernel, which stores
  nothing: after the call the output memory, content and list of written indices, is what
  it was before, for every argument. At the index 0 of a one-element float tensor the
  \<open>_52\<close> kernel, which the launcher never selects, does store the decoded encoding.
\<close>

theorem Quant8Fwd_stores_nothing:
  "fout_mem (Quant8Fwd f8 T seed_slot h input output W1 W2 stoch dynamic) = output \<and>
   stores (fout_mem (Quant8Fwd f8 T seed_slot h
             \<lparr>data = (\<lambda>i. Float32 0x3F800000), numel = 1\<rparr>
             \<lparr>cells = (\<lambda>i. Float32 0), stores = []\<rparr> 5 2 False dynamic)) = [] \<and>
   stores (Quant8FwdKernel_52 f8 (\<lambda>i. Float32 0x3F800000) 1 c False seed 256 0
             \<lparr>cells = (\<lambda>i. Float32 0), stores = []\<rparr>) = [0]"
  using Quant8FwdKernel_52_stores(1) [of 0 1 f8 "\<lambda>i. Float32 0x3F800000" c False seed 256
      "\<lparr>cells = (\<lambda>i. Float32 0), stores = []\<rparr>"]
  by (simp add: Quant8Fwd_fout_mem)

text \<open>
  C3: the claim asks that launches with the same input, \<open>W1\<close>, \<open>W2\<close>, \<open>stoch\<close> and seed
  leave bit-identical output buffers, and that the caller's seed reaches the kernel. Two
  calls with the same input, \<open>(W1, W2) = (5, 2)\<close> and \<open>stoch\<close> set, on output buffers that
  held different values before, leave them different; and the call on one buffer is the
  same whatever stands in the kernel's seed parameter.
\<close>

theorem Quant8Fwd_output_not_determined:
  "cells (fout_mem (Quant8Fwd f8_const T_half 7 \<lparr>printed = [], warn_count = 0\<rparr>
            \<lparr>data = (\<lambda>i. Half16 0x3C00), numel = 1\<rparr>
            \<lparr>cells = (\<lambda>i. Half16 0x1111), stores = []\<rparr> 5 2 True False)) 0 = Half16 0x1111 \<and>
   cells (fout_mem (Quant8Fwd f8_const T_half 7 \<lparr>printed = [], warn_count = 0\<rparr>
            \<lparr>data = (\<lambda>i. Half16 0x3C00), numel = 1\<rparr>
            \<lparr>cells = (\<lambda>i. Half16 0x2222), stores = []\<rparr> 5 2 True False)) 0 = Half16 0x2222 \<and>
   Quant8Fwd f8_const T_half 7 \<lparr>printed = [], warn_count = 0\<rparr>
       \<lparr>data = (\<lambda>i. Half16 0x3C00), numel = 1\<rparr>
       \<lparr>cells = (\<lambda>i. Half16 0x1111), stores = []\<rparr> 5 2 True False =
   Quant8Fwd f8_const T_half 8 \<lparr>printed = [], warn_count = 0\<rparr>
       \<lparr>data = (\<lambda>i. Half16 0x3C00), numel = 1\<rparr>
       \<lparr>cells = (\<lambda>i. Half16 0x1111), stores = []\<rparr> 5 2 True False"
  by (simp add: Quant8Fwd_fout_mem)
    (simp add: Quant8Fwd_def Let_def GpuLaunchKernel_Quant8FwdKernel s32_def split: prod.splits)

lemma Quant8Fwd_op_unsupported:
  assumes "\<not> supported W1 W2"
  shows "Quant8Fwd_op T W1 W2 h =
           ((5, 3), h\<lparr>printed := printed h @
              [if W1 = 4 \<or> W1 = 5 \<or> W1 = 8 then ''ERROR: bad W1,W2 values''
               else ''ERROR: bad W1 value'']\<rparr>)"
  using assms by (auto simp: Quant8Fwd_op_def supported_def Let_def)

text \<open>
  C8 (as amended): for a pair outside the supported set and a tensor of \<open>N\<close> elements with
  \<open>0 < N\<close> and \<open>N + 255 < 2^31\<close> (the count and the grid size are then exact in
  \<open>int32\<close>), the launcher prints one error line on the standard output (after the float
  warning, if any), keeps the default kernel \<open>Quant8FwdKernel<T,5,3>\<close> and launches it;
  the call returns like any other and leaves the output memory as it was. For an empty
  tensor it returns before looking at the pair.
\<close>

theorem Quant8Fwd_unsupported_pair:
  assumes "\<not> supported W1 W2" and "0 < numel input" and "numel input + 255 < 2 ^ 31"
  shows "launched (Quant8Fwd f8 T seed_slot h input output W1 W2 stoch dynamic) = Some (5, 3) \<and>
         printed (host (Quant8Fwd f8 T seed_slot h input output W1 W2 stoch dynamic)) =
           printed (Quant8Fwd_warn T h) @
             [if W1 = 4 \<or> W1 = 5 \<or> W1 = 8 then ''ERROR: bad W1,W2 values''
              else ''ERROR: bad W1 value''] \<and>
         fout_mem (Quant8Fwd f8 T seed_slot h input output W1 W2 stoch dynamic) = output \<and>
         Quant8Fwd f8 T seed_slot h (input\<lparr>numel := 0\<rparr>) output W1 W2 stoch dynamic =
           \<lparr>host = h, launched = None, fout_mem = output\<rparr>"
proof -
  define msg where "msg = (if W1 = 4 \<or> W1 = 5 \<or> W1 = 8 then ''ERROR: bad W1,W2 values''
              else ''ERROR: bad W1 value'')"
  have op: "Quant8Fwd_op T W1 W2 (Quant8Fwd_warn T h) =
      ((5, 3), (Quant8Fwd_warn T h)\<lparr>printed := printed (Quant8Fwd_warn T h) @ [msg]\<rparr>)"
    unfolding msg_def by (rule Quant8Fwd_op_unsupported [OF assms(1)])
  have count: "s32 (numel input) = numel input"
    using assms(2,3) by (simp add: s32_id)
  have "launched (Quant8Fwd f8 T seed_slot h input output W1 W2 stoch dynamic) = Some (5, 3)"
    and "printed (host (Quant8Fwd f8 T seed_slot h input output W1 W2 stoch dynamic)) =
           printed (Quant8Fwd_warn T h) @ [msg]"
    using assms(2) by (simp_all add: Quant8Fwd_def Let_def op count)
  moreover have "Quant8Fwd f8 T seed_slot h (input\<lparr>numel := 0\<rparr>) output W1 W2 stoch dynamic =
           \<lparr>host = h, launched = None, fout_mem = output\<rparr>"
    by (simp add: Quant8Fwd_def s32_def)
  ultimately show ?thesis
    unfolding msg_def by (simp only: Quant8Fwd_fout_mem simp_thms)
qed

theorem Quant8Fwd_unsupported_pair_witness:
  "\<not> supported 7 1 \<and>
   launched (Quant8Fwd f8_const T_half 0 \<lparr>printed = [], warn_count = 0\<rparr>
      \<lparr>data = (\<lambda>i. Half16 0x3C00), numel = 1\<rparr>
      \<lparr>cells = (\<lambda>i. Half16 0), stores = []\<rparr> 7 1 False False) = Some (5, 3) \<and>
   printed (host (Quant8Fwd f8_const T_half 0 \<lparr>printed = [], warn_count = 0\<rparr>
      \<lparr>data = (\<lambda>i. Half16 0x3C00), numel = 1\<rparr>
      \<lparr>cells = (\<lambda>i. Half16 0), stores = []\<rparr> 7 1 False False)) = [''ERROR: bad W1 value'']"
proof -
  have a: "\<not> supported 7 1" by (simp add: supported_def)
  have b: "0 < numel \<lparr>data = (\<lambda>i. Half16 0x3C00), numel = 1\<rparr>"
    "numel \<lparr>data = (\<lambda>i. Half16 0x3C00), numel = 1\<rparr> + 255 < 2 ^ 31"
    by simp_all
  from Quant8Fwd_unsupported_pair [OF a b, of f8_const T_half 0 "\<lparr>printed = [], warn_count = 0\<rparr>"
      "\<lparr>cells = (\<lambda>i. Half16 0), stores = []\<rparr>" False False] a
  show ?thesis by (simp add: Quant8Fwd_warn_def)
qed

text \<open>
  The claim as stated fails: called with \<open>(W1, W2) = (7, 1)\<close> on a one-element float
  tensor, the launcher launches a kernel, namely the one for the substituted pair
  \<open>(5, 3)\<close>, and its result carries no error: besides the printed lines it is the result
  of the call with the supported pair \<open>(5, 3)\<close>.
\<close>

theorem Quant8Fwd_unsupported_pair_counterexample:
  "launched (Quant8Fwd f8_const T_float 0 \<lparr>printed = [], warn_count = 0\<rparr>
      \<lparr>data = (\<lambda>i. Float32 0x3F800000), numel = 1\<rparr>
      \<lparr>cells = (\<lambda>i. Float32 0), stores = []\<rparr> 7 1 False False) = Some (5, 3) \<and>
   printed (host (Quant8Fwd f8_const T_float 0 \<lparr>printed = [], warn_count = 0\<rparr>
      \<lparr>data = (\<lambda>i. Float32 0x3F800000), numel = 1\<rparr>
      \<lparr>cells = (\<lambda>i. Float32 0), stores = []\<rparr> 7 1 False False)) =
     [''WARNING: calling QuantFwd<float>'', ''ERROR: bad W1 value''] \<and>
   launched (Quant8Fwd f8_const T_float 0 \<lparr>printed = [], warn_count = 0\<rparr>
      \<lparr>data = (\<lambda>i. Float32 0x3F800000), numel = 1\<rparr>
      \<lparr>cells = (\<lambda>i. Float32 0), stores = []\<rparr> 7 1 False False) =
   launched (Quant8Fwd f8_const T_float 0 \<lparr>printed = [], warn_count = 0\<rparr>
      \<lparr>data = (\<lambda>i. Float32 0x3F800000), numel = 1\<rparr>
      \<lparr>cells = (\<lambda>i. Float32 0), stores = []\<rparr> 5 3 False False)"
  by (simp add: Quant8Fwd_def Let_def Quant8Fwd_op_def Quant8Fwd_warn_def s32_def)

subsection \<open>Grid-stride loops\<close>

lemma count_list_stride_idx:
  "0 < d \<Longrightarrow> count_list (stride_idx n d i) k = (if i \<le> k \<and> k < n \<and> d dvd (k - i) then 1 else 0)"
proof (induction n d i rule: stride_idx.induct)
  case (1 n d i)
  show ?case
  proof (cases "i < n")
    case True
    have eq: "(i \<le> k \<and> d dvd (k - i)) = (k = i \<or> (i + d \<le> k \<and> d dvd (k - (i + d))))"
    proof -
      have "d dvd (k - (i + d)) = (d dvd (k - i))"
        by (metis add_diff_cancel_right' diff_diff_eq2 dvd_add_triv_right_iff diff_add_cancel add.commute dvd_diff_commute)
      moreover have "k \<noteq> i \<Longrightarrow> i \<le> k \<Longrightarrow> d dvd (k - i) \<Longrightarrow> i + d \<le> k"
        using zdvd_imp_le [of d "k - i"] by simp
      ultimately show ?thesis using 1(2) by auto
    qed
    from True 1 show ?thesis
      apply (subst stride_idx.simps)
      using eq by auto
  next
    case False
    then show ?thesis by (subst stride_idx.simps) simp
  qed
qed

lemma stride_end_eq:
  "0 < d \<Longrightarrow> (stride_end n d i = n) = (i \<le> n \<and> d dvd (n - i))"
proof (induction n d i rule: stride_end.induct)
  case (1 n d i)
  show ?case
  proof (cases "i < n")
    case True
    have "d dvd (n - (i + d)) = (d dvd (n - i))"
      by (metis add_diff_cancel_right' diff_diff_eq2 dvd_add_triv_right_iff diff_add_cancel add.commute dvd_diff_commute)
    moreover have "d dvd (n - i) \<Longrightarrow> i + d \<le> n"
      using zdvd_imp_le [of d "n - i"] True by simp
    ultimately show ?thesis
      using True 1 by (subst stride_end.simps) auto
  next
    case False
    then show ?thesis by (subst stride_end.simps) auto
  qed
qed

lemma count_list_concat:
  "count_list (concat xss) x = sum_list (map (\<lambda>xs. count_list xs x) xss)"
  by (induction xss) simp_all

lemma sum_list_indicator:
  "sum_list (map (\<lambda>t. if t = t0 then 1 else 0) [0 ..< T]) = (if t0 < T then 1 else (0::nat))"
  by (induction T) auto

lemma thread_of_index:
  assumes "tid < T"
  shows "(int tid \<le> k \<and> int T dvd (k - int tid)) = (0 \<le> k \<and> tid = nat (k mod int T))"
proof
  assume a: "int tid \<le> k \<and> int T dvd (k - int tid)"
  then have "k mod int T = int tid mod int T"
    by (metis mod_eq_dvd_iff)
  with assms a show "0 \<le> k \<and> tid = nat (k mod int T)" by simp
next
  assume b: "0 \<le> k \<and> tid = nat (k mod int T)"
  with assms have t: "int tid = k mod int T" by simp
  have "k mod int T \<le> k" using b assms by (simp add: zmod_le_nonneg_dividend)
  moreover have "int T dvd (k - k mod int T)" by (simp add: dvd_minus_mod)
  ultimately show "int tid \<le> k \<and> int T dvd (k - int tid)" using t by simp
qed

lemma count_list_all_idx:
  assumes "0 < T"
  shows "count_list (all_idx n T) k = (if 0 \<le> k \<and> k < n then 1 else 0)"
proof -
  have "count_list (all_idx n T) k =
          sum_list (map (\<lambda>tid. count_list (stride_idx n (int T) (int tid)) k) [0 ..< T])"
    by (simp add: all_idx_def count_list_concat o_def)
  also have "\<dots> = sum_list (map (\<lambda>tid. if 0 \<le> k \<and> k < n \<and> tid = nat (k mod int T) then 1 else 0) [0 ..< T])"
  proof (rule arg_cong [where f = sum_list], rule map_cong [OF refl])
    fix tid assume "tid \<in> set [0 ..< T]"
    then have t: "tid < T" by simp
    from assms have "count_list (stride_idx n (int T) (int tid)) k =
        (if int tid \<le> k \<and> k < n \<and> int T dvd (k - int tid) then 1 else 0)"
      by (simp add: count_list_stride_idx)
    with thread_of_index [OF t, of k]
    show "count_list (stride_idx n (int T) (int tid)) k =
        (if 0 \<le> k \<and> k < n \<and> tid = nat (k mod int T) then 1 else 0)"
      by auto
  qed
  also have "\<dots> = (if 0 \<le> k \<and> k < n then 1 else 0)"
  proof (cases "0 \<le> k \<and> k < n")
    case True
    have "nat (k mod int T) < T" using assms by (simp add: nat_less_iff)
    with True show ?thesis by (simp add: sum_list_indicator)
  next
    case False
    then show ?thesis by auto
  qed
  finally show ?thesis .
qed

lemma fold_bind_Some:
  assumes "\<And>x m. x \<in> set xs \<Longrightarrow> k x m = Some (g x m)"
  shows "fold (\<lambda>x r. Option.bind r (k x)) xs (Some m) = Some (fold g xs m)"
  using assms by (induction xs arbitrary: m) simp_all






lemma count_list_int32_bytes:
  "count_list (concat (map int32_bytes ks)) j = count_list ks (j div 4)"
proof (induction ks)
  case Nil
  then show ?case by simp
next
  case (Cons k ks)
  have "(j = 4 * k \<or> j = 4 * k + 1 \<or> j = 4 * k + 2 \<or> j = 4 * k + 3) = (j div 4 = k)"
    by presburger
  with Cons show ?case
    by (auto simp: int32_bytes_def)
qed




subsection \<open>Packed int8 ReLU: the bytes a launch reads and writes\<close>










subsection \<open>Half-precision ReLU gradient: the two kernels\<close>

lemma stores_at_simps:
  "stores_at v [] m = m"
  "stores_at v (j # js) m = stores_at v js (store m j (v j))"
  "stores_at v (js @ ks) m = stores_at v ks (stores_at v js m)"
  by (simp_all add: stores_at_def)


lemma cells_stores_at: "cells (stores_at v js m) j = (if j \<in> set js then v j else cells m j)"
  by (induction js arbitrary: m) (simp_all add: stores_at_simps store_def)

lemma stores_at_cong: "(\<And>j. j \<in> set js \<Longrightarrow> v j = w j) \<Longrightarrow> stores_at v js m = stores_at w js m"
  unfolding stores_at_def by (rule fold_cong) simp_all

lemma stores_at_concat:
  "fold (\<lambda>x. stores_at v (g x)) xs m = stores_at v (concat (map g xs)) m"
  by (induction xs arbitrary: m) (simp_all add: stores_at_simps)

lemma set_stride_idx: "k \<in> set (stride_idx n d i) \<Longrightarrow> i \<le> k \<and> k < n"
proof (induction n d i rule: stride_idx.induct)
  case (1 n d i)
  from 1(2) show ?case
    by (subst (asm) stride_idx.simps) (use 1(1) in \<open>auto split: if_splits\<close>)
qed

lemma half2_idx_simps: "half2_idx [] = []" "half2_idx (k # ks) = 2 * k # (2 * k + 1) # half2_idx ks"
  by (simp_all add: half2_idx_def)

lemma count_list_half2_idx: "count_list (half2_idx ks) j = count_list ks (j div 2)"
proof (induction ks)
  case Nil
  then show ?case by (simp add: half2_idx_simps)
next
  case (Cons k ks)
  have "(j = 2 * k \<or> j = 2 * k + 1) = (j div 2 = k)"
    by presburger
  with Cons show ?case
    by (auto simp: half2_idx_simps)
qed

lemma ReluGradHalfKernel_loop_eq:
  "0 < d \<Longrightarrow> n + d \<le> 2 ^ 31 \<Longrightarrow> - (2 ^ 31) \<le> i \<Longrightarrow>
   ReluGradHalfKernel_loop ops a g f n d i b =
     Some (stride_end n d i,
           stores_at (\<lambda>j. half2_lane ops a (g j) (f j)) (half2_idx (stride_idx n d i)) b)"
proof (induction n d i arbitrary: b rule: stride_idx.induct)
  case (1 n d i)
  show ?case
  proof (cases "i < n")
    case True
    with 1(2-4) have "s32 (i + d) = i + d" by (intro s32_id) auto
    with True 1 show ?thesis
      by (subst ReluGradHalfKernel_loop.simps, subst stride_idx.simps, subst stride_end.simps)
        (simp add: half2_idx_simps stores_at_simps)
  next
    case False
    then show ?thesis
      by (subst ReluGradHalfKernel_loop.simps, subst stride_idx.simps, subst stride_end.simps)
        (simp add: half2_idx_simps stores_at_simps)
  qed
qed

lemma ReluGradHalfKernel_thread:
  assumes "tid < T" "count div 2 + int T < 2 ^ 31" "0 < count"
  shows "ReluGradHalfKernel ops a g f count T tid b =
           Some (stores_at (paired_val ops a g f count) (paired_idx count T tid) b)"
proof -
  from assms have s: "s32 (int tid) = int tid" "s32 (int T) = int T"
    by (simp_all add: s32_id)
  have l: "ReluGradHalfKernel_loop ops a g f (count div 2) (int T) (int tid) b =
     Some (stride_end (count div 2) (int T) (int tid),
           stores_at (\<lambda>j. half2_lane ops a (g j) (f j))
             (half2_idx (stride_idx (count div 2) (int T) (int tid))) b)"
    using assms by (intro ReluGradHalfKernel_loop_eq) auto
  have c: "stores_at (\<lambda>j. half2_lane ops a (g j) (f j))
             (half2_idx (stride_idx (count div 2) (int T) (int tid))) b =
           stores_at (paired_val ops a g f count)
             (half2_idx (stride_idx (count div 2) (int T) (int tid))) b"
  proof (rule stores_at_cong)
    fix j assume "j \<in> set (half2_idx (stride_idx (count div 2) (int T) (int tid)))"
    then have "count_list (stride_idx (count div 2) (int T) (int tid)) (j div 2) \<noteq> 0"
      by (simp add: count_list_half2_idx [symmetric] count_list_0_iff)
    then have "j div 2 \<in> set (stride_idx (count div 2) (int T) (int tid))"
      by (simp add: count_list_0_iff)
    then have "j div 2 < count div 2" by (auto dest: set_stride_idx)
    then have "j < 2 * (count div 2)" by presburger
    then show "half2_lane ops a (g j) (f j) = paired_val ops a g f count j"
      by (simp add: paired_val_def)
  qed
  have t: "count mod 2 = 1 \<Longrightarrow> paired_val ops a g f count (count - 1) =
      half_scalar ops (g (count - 1)) (f (count - 1))"
  proof -
    assume "count mod 2 = 1"
    then have "\<not> count - 1 < 2 * (count div 2)" by presburger
    then show ?thesis by (simp add: paired_val_def)
  qed
  show ?thesis
    using t by (simp add: ReluGradHalfKernel_def Let_def s l c paired_idx_def stores_at_simps)
qed


lemma sum_list_const_if:
  "sum_list (map (\<lambda>t. if t = t0 \<and> P then 1 else 0) [0 ..< T]) = (if t0 < T \<and> P then 1 else (0::nat))"
  by (induction T) auto

lemma count_list_paired:
  assumes "0 < T" "0 < count"
  shows "count_list (concat (map (paired_idx count T) [0 ..< T])) j =
           (if 0 \<le> j \<and> j < count then 1 else 0)"
proof -
  define h where "h = count div 2"
  have h: "0 \<le> h" using assms(2) by (simp add: h_def)
  have "count_list (concat (map (paired_idx count T) [0 ..< T])) j =
      sum_list (map (\<lambda>tid. count_list (stride_idx h (int T) (int tid)) (j div 2)) [0 ..< T]) +
      sum_list (map (\<lambda>tid. if tid = nat (h mod int T) \<and> (count mod 2 = 1 \<and> j = count - 1) then 1 else 0) [0 ..< T])"
  proof -
    have "count_list (paired_idx count T tid) j =
        count_list (stride_idx h (int T) (int tid)) (j div 2) +
        (if tid = nat (h mod int T) \<and> (count mod 2 = 1 \<and> j = count - 1) then 1 else 0)"
      if "tid \<in> set [0 ..< T]" for tid
    proof -
      from that have t: "tid < T" by simp
      have "(stride_end h (int T) (int tid) = h) = (tid = nat (h mod int T))"
        using stride_end_eq [of "int T" h "int tid"] thread_of_index [OF t, of h] assms(1) h
        by simp
      then show ?thesis
        by (auto simp: paired_idx_def h_def count_list_half2_idx)
    qed
    then have m: "map (\<lambda>tid. count_list (paired_idx count T tid) j) [0 ..< T] =
        map (\<lambda>tid. count_list (stride_idx h (int T) (int tid)) (j div 2) +
        (if tid = nat (h mod int T) \<and> (count mod 2 = 1 \<and> j = count - 1) then 1 else 0)) [0 ..< T]"
      by (intro map_cong refl)
    show ?thesis
      by (simp only: count_list_concat map_map o_def m sum_list_addf)
  qed
  also have "sum_list (map (\<lambda>tid. count_list (stride_idx h (int T) (int tid)) (j div 2)) [0 ..< T]) =
      (if 0 \<le> j div 2 \<and> j div 2 < h then 1 else 0)"
    using count_list_all_idx [OF assms(1), of h "j div 2"]
    by (simp add: all_idx_def count_list_concat o_def)
  also have "sum_list (map (\<lambda>tid. if tid = nat (h mod int T) \<and> (count mod 2 = 1 \<and> j = count - 1) then 1 else 0) [0 ..< T]) =
      (if count mod 2 = 1 \<and> j = count - 1 then 1 else (0::nat))"
  proof -
    have "nat (h mod int T) < T" using assms(1) by (simp add: nat_less_iff)
    then show ?thesis by (simp add: sum_list_const_if)
  qed
  also have "(if 0 \<le> j div 2 \<and> j div 2 < h then 1 else 0) +
      (if count mod 2 = 1 \<and> j = count - 1 then 1 else 0) = (if 0 \<le> j \<and> j < count then 1 else (0::nat))"
  proof -
    have A: "(0 \<le> j div 2 \<and> j div 2 < h) = (0 \<le> j \<and> j < 2 * h)"
      by presburger
    have B: "(if count mod 2 = 1 then 2 * h = count - 1 else 2 * h = count)"
      unfolding h_def by presburger
    show ?thesis
      unfolding A using B h by (cases "count mod 2 = 1") auto
  qed
  finally show ?thesis .
qed

lemma paired_launch:
  assumes "0 < grid" "0 < block" "count div 2 + grid * block < 2 ^ 31" "0 < count"
  shows "GpuLaunchKernel_opt (ReluGradHalfKernel ops a g f count) grid block b =
           Some (stores_at (paired_val ops a g f count)
                   (concat (map (paired_idx count (nat grid * nat block)) [0 ..< nat grid * nat block])) b)"
proof -
  define T where "T = nat grid * nat block"
  have T: "int T = grid * block" using assms(1,2) by (simp add: T_def)
  have "fold (\<lambda>tid r. Option.bind r (ReluGradHalfKernel ops a g f count T tid)) [0 ..< T] (Some b) =
          Some (fold (\<lambda>tid. stores_at (paired_val ops a g f count) (paired_idx count T tid)) [0 ..< T] b)"
    by (rule fold_bind_Some) (use assms T in \<open>simp add: ReluGradHalfKernel_thread\<close>)
  then show ?thesis
    by (simp add: GpuLaunchKernel_opt_def Let_def stores_at_concat T_def)
qed

lemma half2_iterations: "map int [0 ..< nat (8 div 2)] = [0, 1, 2, 3]"
  by (simp add: upt_rec)

lemma fold_store_pairs:
  "fold (\<lambda>i b. store (store b (p i) (u (p i))) (q i) (u (q i))) xs m =
     stores_at u (concat (map (\<lambda>i. [p i, q i]) xs)) m"
  by (induction xs arbitrary: m) (simp_all add: stores_at_simps)

lemma half8_idx_eq: "half8_idx t = half2_idx (int32_bytes t)"
  by (simp add: half8_idx_def half2_idx_def int32_bytes_def)

lemma count_list_half8_idx: "count_list (half8_idx t) j = (if j div 8 = t then 1 else 0)"
proof -
  have "count_list (half8_idx t) j = count_list (concat (map int32_bytes [t])) (j div 2)"
    by (simp only: half8_idx_eq count_list_half2_idx) simp
  also have "\<dots> = count_list [t] (j div 2 div 4)"
    by (simp only: count_list_int32_bytes)
  also have "j div 2 div 4 = j div 8"
    by presburger
  finally show ?thesis by simp
qed

lemma ReluGradHalfKernelVector_thread:
  assumes "int tid < 2 ^ 31" "0 \<le> count"
  shows "ReluGradHalfKernelVector ops a g f count T tid b =
           stores_at (wide_val ops a g f count) (wide_idx count tid) b"
proof -
  define u where "u = (\<lambda>j. half2_lane ops a (g j) (f j))"
  from assms have s: "s32 (int tid) = int tid"
    by (simp add: s32_id)
  from assms(2) have td: "trunc_div count 8 = count div 8" "trunc_mod count 8 = count mod 8"
    by (simp_all add: trunc_div_nonneg trunc_mod_nonneg)
  have main: "fold (\<lambda>i b.
                     store
                       (store b (8 * int tid + 2 * i)
                          (half2_lane ops a (g (8 * int tid + 2 * i))
                             (f (8 * int tid + 2 * i))))
                       (8 * int tid + 2 * i + 1)
                       (half2_lane ops a (g (8 * int tid + 2 * i + 1))
                          (f (8 * int tid + 2 * i + 1))))
                    [0, 1, 2, 3] b =
      stores_at (wide_val ops a g f count) (half8_idx (int tid)) b" if "int tid < count div 8"
  proof -
    have "stores_at u (half8_idx (int tid)) b =
        stores_at (wide_val ops a g f count) (half8_idx (int tid)) b"
    proof (rule stores_at_cong)
      fix j assume "j \<in> set (half8_idx (int tid))"
      then have "count_list (half8_idx (int tid)) j \<noteq> 0"
        by (simp only: count_list_0_iff) simp
      then have "j div 8 = int tid"
        by (simp add: count_list_half8_idx split: if_splits)
      with that have "j < 8 * (count div 8)" by presburger
      then show "u j = wide_val ops a g f count j"
        by (simp add: wide_val_def u_def)
    qed
    then show ?thesis
      using fold_store_pairs [of "\<lambda>i. 8 * int tid + 2 * i" u "\<lambda>i. 8 * int tid + 2 * i + 1" "[0, 1, 2, 3]" b]
      by (simp only: u_def half8_idx_def)
  qed
  have w: "int tid < count mod 8 \<Longrightarrow> wide_val ops a g f count (count div 8 * 8 + int tid) =
      half_scalar ops (g (count div 8 * 8 + int tid)) (f (count div 8 * 8 + int tid))"
    by (simp add: wide_val_def)
  show ?thesis
  proof (cases "int tid < count div 8")
    case c8: True
    show ?thesis
    proof (cases "int tid < count mod 8")
      case True
      show ?thesis
        unfolding ReluGradHalfKernelVector_def Let_def s VectorSizeElements_def half2_iterations td
        by (simp only: c8 True if_True main [OF c8] w [OF True] wide_idx_def stores_at_simps)
    next
      case False
      show ?thesis
        unfolding ReluGradHalfKernelVector_def Let_def s VectorSizeElements_def half2_iterations td
        by (simp only: c8 False if_True if_False main [OF c8] wide_idx_def append_Nil2)
    qed
  next
    case c8: False
    show ?thesis
    proof (cases "int tid < count mod 8")
      case True
      show ?thesis
        unfolding ReluGradHalfKernelVector_def Let_def s VectorSizeElements_def half2_iterations td
        by (simp only: c8 True if_True if_False w [OF True] wide_idx_def stores_at_simps append_Nil)
    next
      case False
      show ?thesis
        unfolding ReluGradHalfKernelVector_def Let_def s VectorSizeElements_def half2_iterations td
        by (simp only: c8 False if_False wide_idx_def stores_at_simps append_Nil)
    qed
  qed
qed

lemma count_list_wide_idx:
  "count_list (wide_idx count tid) j =
     (if tid = nat (j div 8) \<and> (0 \<le> j \<and> j div 8 < count div 8) then 1 else 0) +
     (if tid = nat (j - 8 * (count div 8)) \<and> (8 * (count div 8) \<le> j \<and> j < count) then 1 else 0)"
proof -
  have b: "(int tid < count div 8 \<and> j div 8 = int tid) =
        (tid = nat (j div 8) \<and> (0 \<le> j \<and> j div 8 < count div 8))"
    by auto
  have "(int tid < count mod 8 \<and> j = count div 8 * 8 + int tid) =
        (int tid = j - 8 * (count div 8) \<and> (8 * (count div 8) \<le> j \<and> j < count))"
    by presburger
  then have c: "(int tid < count mod 8 \<and> j = count div 8 * 8 + int tid) =
        (tid = nat (j - 8 * (count div 8)) \<and> (8 * (count div 8) \<le> j \<and> j < count))"
    by auto
  have "count_list (wide_idx count tid) j =
     (if int tid < count div 8 \<and> j div 8 = int tid then 1 else 0) +
     (if int tid < count mod 8 \<and> j = count div 8 * 8 + int tid then 1 else 0)"
    by (simp add: wide_idx_def count_list_half8_idx)
  then show ?thesis
    by (simp only: b c)
qed

lemma div_bounds:
  fixes x :: int
  assumes "0 < b"
  shows "b * (x div b) \<le> x" "x < b * (x div b) + b"
  using mult_div_mod_eq [of b x] pos_mod_bound [OF assms, of x] pos_mod_sign [OF assms, of x]
  by linarith+

lemma count_list_wide:
  assumes "0 \<le> count" "count div 8 \<le> int T" "8 \<le> T"
  shows "count_list (concat (map (wide_idx count) [0 ..< T])) j =
           (if 0 \<le> j \<and> j < count then 1 else 0)"
proof -
  define k where "k = 8 * (count div 8)"
  have k: "0 \<le> k" "k \<le> count" "count < k + 8"
    using div_bounds [of 8 count] assms(1) by (simp_all add: k_def)
  have jk: "8 * (j div 8) \<le> j" "j < 8 * (j div 8) + 8"
    using div_bounds [of 8 j] by simp_all
  define P1 where "P1 = (0 \<le> j \<and> j div 8 < count div 8)"
  define P2 where "P2 = (k \<le> j \<and> j < count)"
  have t1: "P1 \<Longrightarrow> nat (j div 8) < T"
    unfolding P1_def using assms(2) by linarith
  have t2: "P2 \<Longrightarrow> nat (j - k) < T"
    unfolding P2_def using assms(3) k by linarith
  have e: "P1 = (0 \<le> j \<and> j < k)"
    unfolding P1_def k_def using jk by linarith
  have "count_list (concat (map (wide_idx count) [0 ..< T])) j =
      sum_list (map (\<lambda>tid. if tid = nat (j div 8) \<and> P1 then 1 else 0) [0 ..< T]) +
      sum_list (map (\<lambda>tid. if tid = nat (j - k) \<and> P2 then 1 else 0) [0 ..< T])"
    unfolding P1_def P2_def k_def
    by (simp only: count_list_concat map_map o_def count_list_wide_idx sum_list_addf)
  also have "sum_list (map (\<lambda>tid. if tid = nat (j div 8) \<and> P1 then 1 else 0) [0 ..< T]) =
      (if P1 then 1 else (0::nat))"
    using t1 by (simp only: sum_list_const_if) simp
  also have "sum_list (map (\<lambda>tid. if tid = nat (j - k) \<and> P2 then 1 else 0) [0 ..< T]) =
      (if P2 then 1 else (0::nat))"
    using t2 by (simp only: sum_list_const_if) simp
  also have "(if P1 then 1 else (0::nat)) + (if P2 then 1 else 0) =
      (if 0 \<le> j \<and> j < count then 1 else 0)"
    unfolding e P2_def using k by auto
  finally show ?thesis .
qed

lemma wide_threads_bounds:
  assumes "0 < count" "count + 7 < 2 ^ 31"
  shows "count div 8 \<le> int (wide_threads count)" "8 \<le> wide_threads count"
    "int (wide_threads count) < 2 ^ 31"
proof -
  define q where "q = (count + 8 - 1) div 8"
  define K where "K = (q + 512 - 1) div 512"
  have q: "8 * q \<le> count + 7" "count < 8 * q + 1"
    using div_bounds [of 8 "count + 8 - 1"] by (simp_all add: q_def)
  have K: "512 * K \<le> q + 511" "q < 512 * K + 1"
    using div_bounds [of 512 "q + 512 - 1"] by (simp_all add: K_def)
  have c: "8 * (count div 8) \<le> count"
    using div_bounds [of 8 count] by simp
  from q K assms have K0: "1 \<le> K" by linarith
  have dq: "divup count 8 = q"
    unfolding q_def using assms by (intro divup_eq) simp_all
  have dK: "divup q 512 = K"
    unfolding K_def using q assms by (intro divup_eq) simp_all
  from K0 have T: "int (wide_threads count) = 512 * K"
    by (simp add: wide_threads_def dq dK)
  from q K c assms K0 show "count div 8 \<le> int (wide_threads count)"
    unfolding T by linarith
  from K0 have "8 \<le> int (wide_threads count)"
    unfolding T by linarith
  then show "8 \<le> wide_threads count" by linarith
  from q K assms show "int (wide_threads count) < 2 ^ 31"
    unfolding T by simp
qed

lemma wide_launch:
  assumes "0 < count" "count + 7 < 2 ^ 31"
  shows "GpuLaunchKernel (ReluGradHalfKernelVector ops a g f count)
           (divup (divup count VectorSizeElements) 512) 512 b =
         stores_at (wide_val ops a g f count)
           (concat (map (wide_idx count) [0 ..< wide_threads count])) b"
proof -
  have "fold (ReluGradHalfKernelVector ops a g f count (wide_threads count))
          [0 ..< wide_threads count] b =
        fold (\<lambda>tid. stores_at (wide_val ops a g f count) (wide_idx count tid))
          [0 ..< wide_threads count] b"
  proof (rule fold_cong [OF refl refl])
    fix tid assume "tid \<in> set [0 ..< wide_threads count]"
    then have "int tid < 2 ^ 31"
      using wide_threads_bounds(3) [OF assms] by simp
    with assms(1) show "ReluGradHalfKernelVector ops a g f count (wide_threads count) tid =
        stores_at (wide_val ops a g f count) (wide_idx count tid)"
      by (intro ext ReluGradHalfKernelVector_thread) simp_all
  qed
  then show ?thesis
    by (simp add: GpuLaunchKernel_def Let_def stores_at_concat wide_threads_def
        VectorSizeElements_def)
qed

lemma set_by_count: "(j \<in> set xs) = (count_list xs j \<noteq> 0)"
  by (simp add: count_list_0_iff)






lemma cells_paired:
  assumes "0 < grid" "0 < block" "count div 2 + grid * block < 2 ^ 31" "0 < count"
  shows "\<exists>r. GpuLaunchKernel_opt (ReluGradHalfKernel ops a g f count) grid block b = Some r \<and>
          (\<forall>j. cells r j = (if 0 \<le> j \<and> j < count then paired_val ops a g f count j else cells b j))"
proof -
  have "0 < nat grid * nat block" using assms(1,2) by simp
  then have m: "(j \<in> set (concat (map (paired_idx count (nat grid * nat block))
      [0 ..< nat grid * nat block]))) = (0 \<le> j \<and> j < count)" for j
    by (simp only: set_by_count count_list_paired [OF _ assms(4)]) simp
  show ?thesis
    unfolding paired_launch [OF assms]
    by (simp add: cells_stores_at m del: set_concat)
qed

lemma cells_wide:
  assumes "0 < count" "count + 7 < 2 ^ 31"
  shows "cells (GpuLaunchKernel (ReluGradHalfKernelVector ops a g f count)
           (divup (divup count VectorSizeElements) 512) 512 b) j =
         (if 0 \<le> j \<and> j < count then wide_val ops a g f count j else cells b j)"
proof -
  have "0 \<le> count" using assms(1) by simp
  then have "(j \<in> set (concat (map (wide_idx count) [0 ..< wide_threads count]))) =
      (0 \<le> j \<and> j < count)"
    by (simp only: set_by_count count_list_wide [OF _ wide_threads_bounds(1,2) [OF assms]]) simp
  then show ?thesis
    unfolding wide_launch [OF assms]
    by (simp only: cells_stores_at)
qed

lemma fallback_lane_scalar:
  assumes "eigen_half_to_float ops = half2float ops" "eigen_float_to_half ops = float2half_rn ops"
  shows "half2_lane ops False x y = half_scalar ops x y"
  by (simp add: half2_lane_def half_scalar_def assms Let_def)

lemma ReluGrad_half_cells:
  assumes al: "gp mod 16 = 0" "fp mod 16 = 0" "bp mod 16 = 0"
    and nal: "\<not> (gp' mod 16 = 0 \<and> fp' mod 16 = 0 \<and> bp' mod 16 = 0)"
    and n: "0 < numel G" "numel G + 7 < 2 ^ 31"
    and cfg: "0 < block_count cfg" "0 < thread_per_block cfg"
      "numel G div 2 + block_count cfg * thread_per_block cfg < 2 ^ 31"
    and get: "getcfg (divup (numel G) 2) 512 = cfg"
  shows "\<exists>rw rp.
           ReluGrad_half ops a getcfg gp fp bp G F b = Some rw \<and>
           ReluGrad_half ops a getcfg gp' fp' bp' G F b = Some rp \<and>
           (\<forall>j. cells rw j =
              (if 0 \<le> j \<and> j < numel G then wide_val ops a (data G) (data F) (numel G) j
               else cells b j)) \<and>
           (\<forall>j. cells rp j =
              (if 0 \<le> j \<and> j < numel G then paired_val ops a (data G) (data F) (numel G) j
               else cells b j))"
proof -
  define count where "count = numel G"
  define rw where "rw = GpuLaunchKernel (ReluGradHalfKernelVector ops a (data G) (data F) count)
           (divup (divup count VectorSizeElements) 512) 512 b"
  obtain rp where rp: "GpuLaunchKernel_opt (ReluGradHalfKernel ops a (data G) (data F) count)
        (block_count cfg) (thread_per_block cfg) b = Some rp"
    and cp: "\<And>j. cells rp j =
       (if 0 \<le> j \<and> j < count then paired_val ops a (data G) (data F) count j else cells b j)"
    using cells_paired [OF cfg(1,2), of count ops a "data G" "data F" b] cfg(3) n(1)
    unfolding count_def by blast
  have cw: "cells rw j =
       (if 0 \<le> j \<and> j < count then wide_val ops a (data G) (data F) count j else cells b j)" for j
    unfolding rw_def using n by (intro cells_wide) (simp_all add: count_def)
  have s: "s32 (numel G) = numel G"
    using n by (simp add: s32_id)
  have lw: "ReluGrad_half ops a getcfg gp fp bp G F b = Some rw"
    using al n(1) by (simp add: ReluGrad_half_def Let_def rw_def count_def s)
  from nal have nf: "(gp' mod 16 = 0 \<and> fp' mod 16 = 0 \<and> bp' mod 16 = 0) = False"
    by simp
  have lp: "ReluGrad_half ops a getcfg gp' fp' bp' G F b = Some rp"
    unfolding ReluGrad_half_def Let_def nf s
    using n(1) rp get by (simp add: count_def)
  from lw lp cw cp show ?thesis
    unfolding count_def by blast
qed

text \<open>
  C4 (as amended): let the tensors have \<open>N\<close> elements with \<open>0 < N\<close> and
  \<open>N + 7 < 2^31\<close> (the count and the launcher's \<open>divup\<close> are then exact in \<open>int32\<close>), and
  let the launch configuration of the paired kernel have at least one thread and keep the
  grid-stride index within \<open>int32\<close>. Called on the same tensors, once with 16-byte
  aligned pointers (the 8-wide kernel) and once with a pointer that is not aligned (the
  paired kernel), the launcher returns in both cases. After either call the output holds
  a computed value at each index below \<open>N\<close> and is unchanged elsewhere: the 8-wide kernel
  computes the elements below \<open>8 * (N div 8)\<close> by the \<open>half2\<close> lane computation and the
  others by the scalar computation, the paired kernel the elements below
  \<open>2 * (N div 2)\<close> by the lane computation and the last element of an odd \<open>N\<close> by the
  scalar one. The two outputs are equal when the lane and the scalar computation agree
  on the elements \<open>8 * (N div 8) .. 2 * (N div 2) - 1\<close>: in particular when \<open>N mod 8\<close> is
  0 or 1, and for every \<open>N\<close> in the build without \<open>__CUDA_ARCH__ >= 530\<close> when the
  conversions of \<open>Eigen::half\<close> are those of the intrinsics.
\<close>

theorem ReluGrad_half_tiers:
  assumes al: "gp mod 16 = 0" "fp mod 16 = 0" "bp mod 16 = 0"
    and nal: "\<not> (gp' mod 16 = 0 \<and> fp' mod 16 = 0 \<and> bp' mod 16 = 0)"
    and n: "0 < numel G" "numel G + 7 < 2 ^ 31"
    and cfg: "0 < block_count cfg" "0 < thread_per_block cfg"
      "numel G div 2 + block_count cfg * thread_per_block cfg < 2 ^ 31"
    and get: "getcfg (divup (numel G) 2) 512 = cfg"
  shows "\<exists>rw rp.
           ReluGrad_half ops a getcfg gp fp bp G F b = Some rw \<and>
           ReluGrad_half ops a getcfg gp' fp' bp' G F b = Some rp \<and>
           (\<forall>j. cells rw j =
              (if 0 \<le> j \<and> j < numel G
               then (if j < 8 * (numel G div 8) then half2_lane ops a (data G j) (data F j)
                     else half_scalar ops (data G j) (data F j))
               else cells b j)) \<and>
           (\<forall>j. cells rp j =
              (if 0 \<le> j \<and> j < numel G
               then (if j < 2 * (numel G div 2) then half2_lane ops a (data G j) (data F j)
                     else half_scalar ops (data G j) (data F j))
               else cells b j)) \<and>
           ((\<forall>j. 8 * (numel G div 8) \<le> j \<and> j < 2 * (numel G div 2) \<longrightarrow>
                 half2_lane ops a (data G j) (data F j) = half_scalar ops (data G j) (data F j)) \<longrightarrow>
              cells rw = cells rp) \<and>
           (numel G mod 8 \<le> 1 \<longrightarrow> cells rw = cells rp) \<and>
           (\<not> a \<and> eigen_half_to_float ops = half2float ops \<and>
              eigen_float_to_half ops = float2half_rn ops \<longrightarrow> cells rw = cells rp)"
proof -
  define count where "count = numel G"
  obtain rw rp where lw: "ReluGrad_half ops a getcfg gp fp bp G F b = Some rw"
    and lp: "ReluGrad_half ops a getcfg gp' fp' bp' G F b = Some rp"
    and cw: "\<And>j. cells rw j =
       (if 0 \<le> j \<and> j < count then wide_val ops a (data G) (data F) count j else cells b j)"
    and cp: "\<And>j. cells rp j =
       (if 0 \<le> j \<and> j < count then paired_val ops a (data G) (data F) count j else cells b j)"
    using ReluGrad_half_cells [where getcfg = getcfg and G = G and cfg = cfg and ops = ops
        and a = a and F = F and b = b, OF assms]
    unfolding count_def by blast
  have k: "8 * (count div 8) \<le> 2 * (count div 2)" "2 * (count div 2) \<le> count"
    by presburger+
  have eq: "cells rw = cells rp"
    if "\<And>j. 8 * (count div 8) \<le> j \<Longrightarrow> j < 2 * (count div 2) \<Longrightarrow>
        half2_lane ops a (data G j) (data F j) = half_scalar ops (data G j) (data F j)"
  proof (rule ext)
    fix j
    show "cells rw j = cells rp j"
      using that [of j] k by (auto simp: cw cp wide_val_def paired_val_def)
  qed
  have e1: "(\<forall>j. 8 * (count div 8) \<le> j \<and> j < 2 * (count div 2) \<longrightarrow>
                 half2_lane ops a (data G j) (data F j) = half_scalar ops (data G j) (data F j)) \<longrightarrow>
              cells rw = cells rp"
    using eq by blast
  have e2: "count mod 8 \<le> 1 \<longrightarrow> cells rw = cells rp"
  proof
    assume "count mod 8 \<le> 1"
    then have "2 * (count div 2) \<le> 8 * (count div 8)" by presburger
    then show "cells rw = cells rp" by (intro eq) linarith
  qed
  have e3: "\<not> a \<and> eigen_half_to_float ops = half2float ops \<and>
              eigen_float_to_half ops = float2half_rn ops \<longrightarrow> cells rw = cells rp"
    using eq fallback_lane_scalar [of ops] by auto
  from lw lp cw cp e1 e2 e3 show ?thesis
    unfolding wide_val_def paired_val_def count_def by blast
qed

theorem ReluGrad_half_tiers_witness:
  "\<exists>rw rp.
     ReluGrad_half ieee_half_ops False (\<lambda>n t. \<lparr>block_count = 1, thread_per_block = t\<rparr>) 0 0 0
        \<lparr>data = (\<lambda>i. 0xBC00), numel = 3\<rparr> \<lparr>data = (\<lambda>i. 0x3C00), numel = 3\<rparr>
        \<lparr>cells = (\<lambda>i. 0), stores = []\<rparr> = Some rw \<and>
     ReluGrad_half ieee_half_ops False (\<lambda>n t. \<lparr>block_count = 1, thread_per_block = t\<rparr>) 2 0 0
        \<lparr>data = (\<lambda>i. 0xBC00), numel = 3\<rparr> \<lparr>data = (\<lambda>i. 0x3C00), numel = 3\<rparr>
        \<lparr>cells = (\<lambda>i. 0), stores = []\<rparr> = Some rp \<and>
     cells rw = cells rp \<and> cells rw 2 = 0xBC00 \<and> cells rw 3 = 0"
proof -
  define G :: "16 word tensor" where "G = \<lparr>data = (\<lambda>i. 0xBC00), numel = 3\<rparr>"
  define F :: "16 word tensor" where "F = \<lparr>data = (\<lambda>i. 0x3C00), numel = 3\<rparr>"
  define cfg where "cfg = \<lparr>block_count = 1, thread_per_block = 512\<rparr>"
  define getcfg :: "int \<Rightarrow> int \<Rightarrow> gpu_launch_config"
    where "getcfg = (\<lambda>n t. \<lparr>block_count = 1, thread_per_block = t\<rparr>)"
  define b :: "16 word devmem" where "b = \<lparr>cells = (\<lambda>i. 0), stores = []\<rparr>"
  have h: "(0::nat) mod 16 = 0" "(0::nat) mod 16 = 0" "(0::nat) mod 16 = 0"
    "\<not> ((2::nat) mod 16 = 0 \<and> (0::nat) mod 16 = 0 \<and> (0::nat) mod 16 = 0)"
    "0 < numel G" "numel G + 7 < 2 ^ 31"
    "0 < block_count cfg" "0 < thread_per_block cfg"
    "numel G div 2 + block_count cfg * thread_per_block cfg < 2 ^ 31"
    "getcfg (divup (numel G) 2) 512 = cfg"
    by (simp_all add: G_def cfg_def getcfg_def)
  have i: "\<not> False \<and> eigen_half_to_float ieee_half_ops = half2float ieee_half_ops \<and>
      eigen_float_to_half ieee_half_ops = float2half_rn ieee_half_ops"
    by (simp add: ieee_half_ops_def)
  have s: "half_scalar ieee_half_ops 0xBC00 0x3C00 = 0xBC00"
    by (simp add: half_scalar_def ieee_half_ops_def half_gt_def half_is_nan_def half_order_def
        Let_def)
  from ReluGrad_half_tiers [where getcfg = getcfg and G = G and cfg = cfg
      and ops = ieee_half_ops and a = False and F = F and b = b, OF h]
  obtain rw rp where "ReluGrad_half ieee_half_ops False getcfg 0 0 0 G F b = Some rw"
    and "ReluGrad_half ieee_half_ops False getcfg 2 0 0 G F b = Some rp"
    and c: "\<And>j. cells rw j =
              (if 0 \<le> j \<and> j < numel G
               then (if j < 8 * (numel G div 8)
                     then half2_lane ieee_half_ops False (data G j) (data F j)
                     else half_scalar ieee_half_ops (data G j) (data F j))
               else cells b j)"
    and "\<not> False \<and> eigen_half_to_float ieee_half_ops = half2float ieee_half_ops \<and>
          eigen_float_to_half ieee_half_ops = float2half_rn ieee_half_ops \<longrightarrow>
            cells rw = cells rp"
    by blast
  moreover from this i have "cells rw = cells rp" by blast
  moreover have "cells rw 2 = 0xBC00" "cells rw 3 = 0"
    by (simp_all add: c G_def F_def b_def s)
  ultimately show ?thesis
    unfolding G_def F_def getcfg_def b_def by blast
qed

text \<open>
  The claim as stated fails in the build with \<open>__CUDA_ARCH__ >= 530\<close>: for \<open>N = 2\<close>,
  gradients \<open>[-1, -1]\<close> and features \<open>[-1, -1]\<close> (pattern \<open>0xBC00\<close>) the 8-wide kernel
  treats both elements as the remainder and stores \<open>+0\<close> (\<open>0x0000\<close>), while the paired
  kernel multiplies the mask 0 by the gradient and stores \<open>-0\<close> (\<open>0x8000\<close>).
\<close>

theorem ReluGrad_half_tiers_counterexample:
  "map_option (\<lambda>r. cells r 0)
     (ReluGrad_half ieee_half_ops True (\<lambda>n t. \<lparr>block_count = 1, thread_per_block = t\<rparr>) 0 0 0
        \<lparr>data = (\<lambda>i. 0xBC00), numel = 2\<rparr> \<lparr>data = (\<lambda>i. 0xBC00), numel = 2\<rparr>
        \<lparr>cells = (\<lambda>i. 0), stores = []\<rparr>) = Some 0 \<and>
   map_option (\<lambda>r. cells r 0)
     (ReluGrad_half ieee_half_ops True (\<lambda>n t. \<lparr>block_count = 1, thread_per_block = t\<rparr>) 2 0 0
        \<lparr>data = (\<lambda>i. 0xBC00), numel = 2\<rparr> \<lparr>data = (\<lambda>i. 0xBC00), numel = 2\<rparr>
        \<lparr>cells = (\<lambda>i. 0), stores = []\<rparr>) = Some 0x8000"
proof -
  define G :: "16 word tensor" where "G = \<lparr>data = (\<lambda>i. 0xBC00), numel = 2\<rparr>"
  define cfg where "cfg = \<lparr>block_count = 1, thread_per_block = 512\<rparr>"
  define getcfg :: "int \<Rightarrow> int \<Rightarrow> gpu_launch_config"
    where "getcfg = (\<lambda>n t. \<lparr>block_count = 1, thread_per_block = t\<rparr>)"
  define b :: "16 word devmem" where "b = \<lparr>cells = (\<lambda>i. 0), stores = []\<rparr>"
  have h: "(0::nat) mod 16 = 0" "(0::nat) mod 16 = 0" "(0::nat) mod 16 = 0"
    "\<not> ((2::nat) mod 16 = 0 \<and> (0::nat) mod 16 = 0 \<and> (0::nat) mod 16 = 0)"
    "0 < numel G" "numel G + 7 < 2 ^ 31"
    "0 < block_count cfg" "0 < thread_per_block cfg"
    "numel G div 2 + block_count cfg * thread_per_block cfg < 2 ^ 31"
    "getcfg (divup (numel G) 2) 512 = cfg"
    by (simp_all add: G_def cfg_def getcfg_def)
  have w: "wide_val ieee_half_ops True (data G) (data G) (numel G) 0 = 0"
    by (simp add: wide_val_def G_def half_scalar_def ieee_half_ops_def half_gt_def
        half_is_nan_def half_order_def Let_def)
  have p: "paired_val ieee_half_ops True (data G) (data G) (numel G) 0 = 0x8000"
    by (simp add: paired_val_def G_def half2_lane_def ieee_half_ops_def half_gt_def
        half_is_nan_def half_is_inf_def half_order_def half_mul_mask_def Let_def)
  from ReluGrad_half_cells [where getcfg = getcfg and G = G and cfg = cfg
      and ops = ieee_half_ops and a = True and F = G and b = b, OF h]
  obtain rw rp where "ReluGrad_half ieee_half_ops True getcfg 0 0 0 G G b = Some rw"
    and "ReluGrad_half ieee_half_ops True getcfg 2 0 0 G G b = Some rp"
    and "\<And>j. cells rw j =
              (if 0 \<le> j \<and> j < numel G then wide_val ieee_half_ops True (data G) (data G) (numel G) j
               else cells b j)"
    and "\<And>j. cells rp j =
              (if 0 \<le> j \<and> j < numel G then paired_val ieee_half_ops True (data G) (data G) (numel G) j
               else cells b j)"
    by blast
  then show ?thesis
    using w p unfolding G_def getcfg_def b_def by simp
qed

end
